theory Spec2Isabelle
  imports
    Main
    "HOL-Library.Char_ord"
    "HOL-Library.List_Lexorder"
    "HOL-Library.Product_Lexorder"
begin

section \<open>Strings\<close>

text \<open>
  Python strings are sequences of code points. They are modelled as \<open>string\<close>, each
  \<open>char\<close> read as one code point of the range U+0000..U+00FF (ISO 8859-1). This is the
  range in which the accented letters of \<open>slugify\<close>'s translation table live. The
  character classes below are Python's \<open>str.lower\<close>, \<open>\d\<close> and \<open>\s\<close> restricted to it.
\<close>

definition code :: "char \<Rightarrow> nat" where
  "code c = of_char c"

definition lower_char :: "char \<Rightarrow> char" where
  "lower_char c =
     (let n = code c in
      if (65 \<le> n \<and> n \<le> 90) \<or> (192 \<le> n \<and> n \<le> 222 \<and> n \<noteq> 215)
      then char_of (n + 32) else c)"

definition lower :: "string \<Rightarrow> string" where
  "lower s = map lower_char s"

definition is_digit :: "char \<Rightarrow> bool" where
  "is_digit c = (48 \<le> code c \<and> code c \<le> 57)"

definition is_space :: "char \<Rightarrow> bool" where
  "is_space c =
     (let n = code c in (9 \<le> n \<and> n \<le> 13) \<or> (28 \<le> n \<and> n \<le> 32) \<or> n = 133 \<or> n = 160)"

definition is_lower_alnum :: "char \<Rightarrow> bool" where
  "is_lower_alnum c = ((97 \<le> code c \<and> code c \<le> 122) \<or> is_digit c)"

definition is_hex :: "char \<Rightarrow> bool" where
  "is_hex c =
     (let n = code c in (48 \<le> n \<and> n \<le> 57) \<or> (97 \<le> n \<and> n \<le> 102) \<or> (65 \<le> n \<and> n \<le> 70))"

definition newline :: char where
  "newline = CHR 0x0A"

text \<open>\<open>s.replace(a, b)\<close> for a one-character \<open>a\<close>.\<close>

definition replace_char :: "char \<Rightarrow> string \<Rightarrow> string \<Rightarrow> string" where
  "replace_char a b s = concat (map (\<lambda>c. if c = a then b else [c]) s)"

text \<open>\<open>s.strip("-")\<close>.\<close>

definition strip_dash :: "string \<Rightarrow> string" where
  "strip_dash s =
     rev (dropWhile (\<lambda>c. c = CHR ''-'') (rev (dropWhile (\<lambda>c. c = CHR ''-'') s)))"

text \<open>
  \<open>HEX64 = re.compile(r"^[a-f0-9]{64}$", re.I)\<close> used with \<open>match\<close>: sixty-four
  hexadecimal digits; \<open>$\<close> also matches just before a newline that ends the string.
\<close>

definition HEX64_match :: "string \<Rightarrow> bool" where
  "HEX64_match s =
     (list_all is_hex (take 64 s) \<and> length (take 64 s) = 64 \<and>
      (drop 64 s = [] \<or> drop 64 s = [newline]))"

section \<open>Slugs and version tokens\<close>

text \<open>The translation table of \<open>slugify\<close>: fifteen accented letters to their base letter.\<close>

definition translate_char :: "char \<Rightarrow> char" where
  "translate_char c =
     (if c = CHR 0xE0 \<or> c = CHR 0xE2 \<or> c = CHR 0xE4 then CHR ''a''
      else if c = CHR 0xE9 \<or> c = CHR 0xE8 \<or> c = CHR 0xEA \<or> c = CHR 0xEB then CHR ''e''
      else if c = CHR 0xEF \<or> c = CHR 0xEE then CHR ''i''
      else if c = CHR 0xF4 \<or> c = CHR 0xF6 then CHR ''o''
      else if c = CHR 0xF9 \<or> c = CHR 0xFB \<or> c = CHR 0xFC then CHR ''u''
      else if c = CHR 0xE7 then CHR ''c''
      else c)"

text \<open>
  \<open>re.sub(r"[^a-z0-9]+", "-", s)\<close>: every maximal run of other characters becomes one
  dash. The flag says whether the scan is inside such a run.
\<close>

fun sub_runs :: "bool \<Rightarrow> string \<Rightarrow> string" where
  "sub_runs in_run [] = []"
| "sub_runs in_run (c # cs) =
     (if is_lower_alnum c then c # sub_runs False cs
      else if in_run then sub_runs True cs
      else CHR ''-'' # sub_runs True cs)"

definition slugify :: "string \<Rightarrow> string" where
  "slugify s = strip_dash (sub_runs False (map translate_char (lower s)))"

text \<open>
  The version token \<open>v\d+(?:\.\d+)*\<close> under \<open>re.I\<close>, matched greedily at the head of a
  string: the token and what follows it. Nothing follows the token in the patterns but
  the end of the pattern or \<open>$\<close>, and every shorter match of the token is followed by a
  digit or by a dot and a digit, so the greedy match is the only one that can succeed.
\<close>

function dot_groups :: "string \<Rightarrow> string \<times> string" where
  "dot_groups s =
     (case s of
        c # d # cs \<Rightarrow>
          if c = CHR ''.'' \<and> is_digit d
          then (let (t, r) = dot_groups (dropWhile is_digit cs)
                in (c # d # takeWhile is_digit cs @ t, r))
          else ([], s)
      | _ \<Rightarrow> ([], s))"
  by pat_completeness auto
termination
  by (relation "measure length") (auto simp: less_Suc_eq_le intro: le_SucI length_dropWhile_le)

declare dot_groups.simps [simp del]

definition version_token :: "string \<Rightarrow> (string \<times> string) option" where
  "version_token s =
     (case s of
        [] \<Rightarrow> None
      | c # cs \<Rightarrow>
          if (c = CHR ''v'' \<or> c = CHR ''V'') \<and> takeWhile is_digit cs \<noteq> []
          then (let (t, r) = dot_groups (dropWhile is_digit cs)
                in Some (c # takeWhile is_digit cs @ t, r))
          else None)"

text \<open>The separator class \<open>[_\-\s]\<close>.\<close>

definition is_sep :: "char \<Rightarrow> bool" where
  "is_sep c = (c = CHR ''_'' \<or> c = CHR ''-'' \<or> is_space c)"

text \<open>
  \<open>re.search(r"(?:^|[_\-\s])(v\d+(?:\.\d+)*)", name, flags=re.I)\<close>: the leftmost
  position where the token stands at the start of the string or after a separator.
\<close>

fun search_after_sep :: "string \<Rightarrow> string option" where
  "search_after_sep [] = None"
| "search_after_sep (c # cs) =
     (if is_sep c
      then (case version_token cs of
              Some (t, r) \<Rightarrow> Some t
            | None \<Rightarrow> search_after_sep cs)
      else search_after_sep cs)"

definition search_version :: "string \<Rightarrow> string option" where
  "search_version name =
     (case version_token name of
        Some (t, r) \<Rightarrow> Some t
      | None \<Rightarrow> search_after_sep name)"

definition parse_version_from_name :: "string \<Rightarrow> string option" where
  "parse_version_from_name name =
     (case search_version name of
        None \<Rightarrow> None
      | Some t \<Rightarrow> Some (replace_char (CHR ''.'') ''-'' (lower t)))"

text \<open>Python's \<open>a or b\<close> on optional strings: \<open>None\<close> and the empty string are falsy.\<close>

definition str_or :: "string option \<Rightarrow> string option \<Rightarrow> string option" where
  "str_or a b = (case a of Some (c # cs) \<Rightarrow> a | _ \<Rightarrow> b)"

definition str_truthy :: "string option \<Rightarrow> bool" where
  "str_truthy a = (case a of Some (c # cs) \<Rightarrow> True | _ \<Rightarrow> False)"

text \<open>
  \<open>build_slug_version\<close>; the last argument (the anchoring time) is not used by the
  source either.
\<close>

definition resolve_version :: "string \<Rightarrow> string \<Rightarrow> string" where
  "resolve_version pdf_name folder_label =
     (let version = str_or (parse_version_from_name pdf_name)
                           (parse_version_from_name folder_label)
      in if \<not> str_truthy version then ''v1-0'' else the version)"

definition build_slug_version :: "string \<Rightarrow> string \<Rightarrow> string \<Rightarrow> string option \<Rightarrow> string" where
  "build_slug_version base_slug pdf_name folder_label anchored_utc =
     base_slug @ ''_'' @ resolve_version pdf_name folder_label"

text \<open>
  \<open>re.sub(r"(?:^|[_\-\s])v\d+(?:\.\d+)*$", "", folder_label, flags=re.I)\<close> of
  \<open>collect_folder\<close>: a version token that ends the label (or stands just before its final
  newline) is removed together with the separator before it.
\<close>

definition at_end :: "string \<Rightarrow> bool" where
  "at_end r = (r = [] \<or> r = [newline])"

fun sub_after_sep :: "string \<Rightarrow> string" where
  "sub_after_sep [] = []"
| "sub_after_sep (c # cs) =
     (if is_sep c
      then (case version_token cs of
              Some (t, r) \<Rightarrow> if at_end r then r else c # sub_after_sep cs
            | None \<Rightarrow> c # sub_after_sep cs)
      else c # sub_after_sep cs)"

definition strip_version_suffix :: "string \<Rightarrow> string" where
  "strip_version_suffix label =
     (case version_token label of
        Some (t, r) \<Rightarrow> if at_end r then r else sub_after_sep label
      | None \<Rightarrow> sub_after_sep label)"

definition base_slug_of :: "string \<Rightarrow> string" where
  "base_slug_of folder_label = slugify (strip_version_suffix folder_label)"

section \<open>Values read from a receipt\<close>

text \<open>
  What \<open>json.loads\<close> returns: \<open>None\<close>, a boolean, an integer, a string, a list or a
  dict. A dict is an association list read with \<open>map_of\<close>. JSON numbers with a fraction
  are left out of the model. \<open>JNull\<close> is also what \<open>dict.get\<close> returns for a key that
  is absent.
\<close>

datatype json =
  JNull
  | JBool bool
  | JInt int
  | JStr string
  | JArr "json list"
  | JObj "(string \<times> json) list"

datatype py_error = AttributeError | TypeError | OSError

fun truthy :: "json \<Rightarrow> bool" where
  "truthy JNull = False"
| "truthy (JBool b) = b"
| "truthy (JInt n) = (n \<noteq> 0)"
| "truthy (JStr s) = (s \<noteq> [])"
| "truthy (JArr xs) = (xs \<noteq> [])"
| "truthy (JObj kv) = (kv \<noteq> [])"

definition py_or :: "json \<Rightarrow> json \<Rightarrow> json" where
  "py_or a b = (if truthy a then a else b)"

definition dict_get :: "(string \<times> json) list \<Rightarrow> string \<Rightarrow> json" where
  "dict_get kv k = (case map_of kv k of None \<Rightarrow> JNull | Some v \<Rightarrow> v)"

definition digit_char :: "nat \<Rightarrow> char" where
  "digit_char d = char_of (48 + d)"

function dec :: "nat \<Rightarrow> string" where
  "dec n = (if n < 10 then [digit_char n] else dec (n div 10) @ [digit_char (n mod 10)])"
  by pat_completeness auto
termination
  by (relation "measure id") auto

declare dec.simps [simp del]

text \<open>
  \<open>str(x)\<close> for the scalars. The \<open>str\<close> of a list or of a dict is its \<open>repr\<close>, which
  starts with a bracket or a brace: it is no ledger tag and no ISO 8601 date, the only two
  things the source looks for in it, and is given as \<open>None\<close>.
\<close>

fun py_str :: "json \<Rightarrow> string option" where
  "py_str JNull = Some ''None''"
| "py_str (JBool b) = Some (if b then ''True'' else ''False'')"
| "py_str (JInt n) = Some (if n < 0 then CHR ''-'' # dec (nat (- n)) else dec (nat n))"
| "py_str (JStr s) = Some s"
| "py_str (JArr xs) = None"
| "py_str (JObj kv) = None"

subsection \<open>Timestamps\<close>

text \<open>
  A \<open>datetime\<close> value: its calendar fields, and the whole seconds of its offset from
  UTC when it is aware (\<open>None\<close> for a naive value).
\<close>

record datetime =
  dt_year :: nat
  dt_month :: nat
  dt_day :: nat
  dt_hour :: nat
  dt_minute :: nat
  dt_second :: nat
  dt_microsecond :: nat
  dt_utcoffset :: "int option"

text \<open>
  The library functions the tool calls, as parameters: \<open>hashlib.sha256(bytes).hexdigest()\<close>,
  \<open>json.loads\<close> of the decoded file (\<open>None\<close> when decoding or parsing raises),
  \<open>datetime.fromisoformat\<close> (\<open>None\<close> when it raises) and the first component of
  \<open>mimetypes.guess_type\<close>.
\<close>

record pylib =
  sha256_hex :: "string \<Rightarrow> string"
  json_loads :: "string \<Rightarrow> json option"
  fromisoformat :: "string \<Rightarrow> datetime option"
  guess_type :: "string \<Rightarrow> string option"

definition zpad :: "nat \<Rightarrow> nat \<Rightarrow> string" where
  "zpad w n = replicate (w - length (dec n)) (CHR ''0'') @ dec n"

text \<open>
  \<open>dt.strftime("%Y-%m-%dT%H:%M:%SZ")\<close>: the fields as they stand, then a literal Z. The
  directives are rendered by the C library of the platform; this is the rendering of glibc,
  where \<open>%Y\<close> is the year in decimal with no padding (a year below 1000 has fewer than
  four digits) and the other five fields are padded with zeros to two digits.
\<close>

definition strftime :: "datetime \<Rightarrow> string" where
  "strftime dt =
     dec (dt_year dt) @ ''-'' @ zpad 2 (dt_month dt) @ ''-'' @ zpad 2 (dt_day dt) @ ''T'' @
     zpad 2 (dt_hour dt) @ '':'' @ zpad 2 (dt_minute dt) @ '':'' @ zpad 2 (dt_second dt) @ ''Z''"

definition norm_iso :: "pylib \<Rightarrow> json \<Rightarrow> string option" where
  "norm_iso L dt_like =
     (if \<not> truthy dt_like then None
      else (case py_str dt_like of
              None \<Rightarrow> None
            | Some s \<Rightarrow>
                (case fromisoformat L (replace_char (CHR ''Z'') ''+00:00'' s) of
                   None \<Rightarrow> None
                 | Some dt \<Rightarrow> Some (strftime dt))))"

subsection \<open>The receipt normaliser\<close>

record receipt_info =
  r_proof_id :: json
  r_sha256 :: "string option"
  r_txid :: "string option"
  r_block_height :: json
  r_anchored_utc :: "string option"
  r_link :: json

text \<open>\<open>x.lower()\<close> where \<open>x\<close> is truthy: only a string has the method.\<close>

definition lower_if_truthy :: "json \<Rightarrow> py_error + string option" where
  "lower_if_truthy x =
     (if \<not> truthy x then Inr None
      else (case x of JStr s \<Rightarrow> Inr (Some (lower s)) | _ \<Rightarrow> Inl AttributeError))"

definition ledger_tags :: "string list" where
  "ledger_tags = [''btc'', ''bitcoin'', ''opreturn'', ''op-return'', ''op_return'']"

text \<open>\<open>str(a.get("type", "")).lower() in (...)\<close> for a dict \<open>a\<close>.\<close>

definition qualifies :: "(string \<times> json) list \<Rightarrow> bool" where
  "qualifies kv =
     (case py_str (case map_of kv ''type'' of None \<Rightarrow> JStr [] | Some v \<Rightarrow> v) of
        None \<Rightarrow> False
      | Some s \<Rightarrow> lower s \<in> set ledger_tags)"

text \<open>The three values an anchor entry offers, before the \<open>or\<close> with the value kept so far.\<close>

definition anchor_txid :: "(string \<times> json) list \<Rightarrow> json" where
  "anchor_txid kv = py_or (dict_get kv ''txId'') (dict_get kv ''txid'')"

definition anchor_height :: "(string \<times> json) list \<Rightarrow> json" where
  "anchor_height kv = dict_get kv ''blockHeight''"

definition anchor_time :: "(string \<times> json) list \<Rightarrow> json" where
  "anchor_time kv =
     py_or (py_or (dict_get kv ''time'') (dict_get kv ''timestamp'')) (dict_get kv ''confirmedAt'')"

text \<open>
  One turn of the loop \<open>for a in anchors\<close> on the triple (txid, block_height, block_time);
  \<open>a.get\<close> raises \<open>AttributeError\<close> when the entry is no dict.
\<close>

definition anchor_step :: "json \<times> json \<times> json \<Rightarrow> json \<Rightarrow> py_error + json \<times> json \<times> json" where
  "anchor_step st a =
     (case a of
        JObj kv \<Rightarrow>
          (case st of (txid, block_height, block_time) \<Rightarrow>
             if qualifies kv
             then Inr (py_or (anchor_txid kv) txid,
                       py_or (anchor_height kv) block_height,
                       py_or (anchor_time kv) block_time)
             else Inr st)
      | _ \<Rightarrow> Inl AttributeError)"

fun scan_anchors :: "json \<times> json \<times> json \<Rightarrow> json list \<Rightarrow> py_error + json \<times> json \<times> json" where
  "scan_anchors st [] = Inr st"
| "scan_anchors st (a # as) =
     (case anchor_step st a of
        Inl e \<Rightarrow> Inl e
      | Inr st' \<Rightarrow> scan_anchors st' as)"

text \<open>
  What the loop iterates over: a dict is wrapped into a one-element list, a list gives its
  elements, a string its characters (each a one-character string), and a number or
  \<open>True\<close> is not iterable.
\<close>

definition anchor_entries :: "json \<Rightarrow> py_error + json list" where
  "anchor_entries anchors =
     (case anchors of
        JObj kv \<Rightarrow> Inr [JObj kv]
      | JArr xs \<Rightarrow> Inr xs
      | JStr s \<Rightarrow> Inr (map (\<lambda>c. JStr [c]) s)
      | _ \<Rightarrow> Inl TypeError)"

definition resolve_anchors :: "(string \<times> json) list \<Rightarrow> py_error + json \<times> json \<times> json" where
  "resolve_anchors kv =
     (case anchor_entries (py_or (py_or (dict_get kv ''anchors'') (dict_get kv ''anchor'')) (JArr [])) of
        Inl e \<Rightarrow> Inl e
      | Inr entries \<Rightarrow> scan_anchors (JNull, JNull, JNull) entries)"

definition resolve_anchored_utc :: "pylib \<Rightarrow> json \<Rightarrow> (string \<times> json) list \<Rightarrow> string option" where
  "resolve_anchored_utc L block_time kv =
     str_or (str_or (str_or (norm_iso L block_time)
                            (norm_iso L (dict_get kv ''blockTime'')))
                    (norm_iso L (dict_get kv ''anchoredOn'')))
            (norm_iso L (dict_get kv ''created''))"

definition parse_woleet_receipt :: "pylib \<Rightarrow> json \<Rightarrow> py_error + receipt_info" where
  "parse_woleet_receipt L data =
     (case data of
        JObj kv \<Rightarrow>
          (let proof_id = py_or (py_or (dict_get kv ''id'') (dict_get kv ''proof_id''))
                                (dict_get kv ''proofId'');
               target = py_or (py_or (py_or (dict_get kv ''targetHash'') (dict_get kv ''hash''))
                                     (JStr []))
                              JNull
           in case lower_if_truthy target of
                Inl e \<Rightarrow> Inl e
              | Inr target_hash \<Rightarrow>
                  (case resolve_anchors kv of
                     Inl e \<Rightarrow> Inl e
                   | Inr (txid0, block_height, block_time) \<Rightarrow>
                       (case lower_if_truthy
                               (py_or (py_or (py_or txid0 (dict_get kv ''txid''))
                                             (dict_get kv ''txId''))
                                      JNull) of
                          Inl e \<Rightarrow> Inl e
                        | Inr txid \<Rightarrow>
                            Inr \<lparr> r_proof_id = proof_id,
                                  r_sha256 = target_hash,
                                  r_txid = txid,
                                  r_block_height = block_height,
                                  r_anchored_utc = resolve_anchored_utc L block_time kv,
                                  r_link = py_or (py_or (dict_get kv ''receiptUrl'')
                                                        (dict_get kv ''url''))
                                                 JNull \<rparr>)))
      | _ \<Rightarrow> Inl AttributeError)"

subsection \<open>A reference parser for examples\<close>

text \<open>
  A parser for the forms that the documentation of \<open>datetime.fromisoformat\<close> gives for
  Python 3.7 to 3.10: the calendar date \<open>YYYY-MM-DD\<close>, alone or followed by one
  separator character, a time \<open>HH\<close>, \<open>HH:MM\<close> or \<open>HH:MM:SS\<close>, the latter with an
  optional fraction of three or six digits, and an optional offset \<open>+HH:MM\<close>,
  \<open>+HH:MM:SS\<close> or \<open>+HH:MM:SS.ffffff\<close> of either sign and less than a day. On these
  strings it gives the fields that the library gives, the offset in whole seconds. From
  Python 3.11 on the library accepts further forms of ISO 8601, such as \<open>YYYYMMDD\<close>;
  the definitions above take the parser as a parameter, and the theorems on them hold
  for every parser.
\<close>

definition digit_val :: "char \<Rightarrow> nat" where
  "digit_val c = code c - 48"

definition digits_val :: "string \<Rightarrow> nat option" where
  "digits_val s =
     (if s \<noteq> [] \<and> list_all is_digit s
      then Some (foldl (\<lambda>n c. 10 * n + digit_val c) 0 s) else None)"

definition is_leap :: "nat \<Rightarrow> bool" where
  "is_leap y = (y mod 4 = 0 \<and> (y mod 100 \<noteq> 0 \<or> y mod 400 = 0))"

definition days_in_month :: "nat \<Rightarrow> nat \<Rightarrow> nat" where
  "days_in_month y m =
     (if m = 2 then (if is_leap y then 29 else 28)
      else if m = 4 \<or> m = 6 \<or> m = 9 \<or> m = 11 then 30 else 31)"

definition parse_date :: "string \<Rightarrow> (nat \<times> nat \<times> nat) option" where
  "parse_date s =
     (if length s = 10 \<and> s ! 4 = CHR ''-'' \<and> s ! 7 = CHR ''-''
      then (case (digits_val (take 4 s), digits_val (take 2 (drop 5 s)), digits_val (drop 8 s)) of
              (Some y, Some m, Some d) \<Rightarrow>
                if 1 \<le> y \<and> 1 \<le> m \<and> m \<le> 12 \<and> 1 \<le> d \<and> d \<le> days_in_month y m
                then Some (y, m, d) else None
            | _ \<Rightarrow> None)
      else None)"

text \<open>The fields \<open>HH[:MM[:SS[.fff[fff]]]]\<close>, with no check of their ranges.\<close>

definition two_digits :: "string \<Rightarrow> nat option" where
  "two_digits s = (if length s = 2 then digits_val s else None)"

definition parse_fraction :: "string \<Rightarrow> nat option" where
  "parse_fraction s =
     (if s = [] then Some 0
      else if length s = 3 then map_option (\<lambda>n. 1000 * n) (digits_val s)
      else if length s = 6 then digits_val s
      else None)"

definition parse_hh_mm_ss_ff :: "string \<Rightarrow> (nat \<times> nat \<times> nat \<times> nat) option" where
  "parse_hh_mm_ss_ff s =
     (if length s = 2
      then map_option (\<lambda>h. (h, 0, 0, 0)) (two_digits s)
      else if length s = 5 \<and> s ! 2 = CHR '':''
      then (case (two_digits (take 2 s), two_digits (drop 3 s)) of
              (Some h, Some m) \<Rightarrow> Some (h, m, 0, 0)
            | _ \<Rightarrow> None)
      else if (length s = 8 \<or> (length s = 12 \<or> length s = 15) \<and> s ! 8 = CHR ''.'')
              \<and> s ! 2 = CHR '':'' \<and> s ! 5 = CHR '':''
      then (case (two_digits (take 2 s), two_digits (take 2 (drop 3 s)),
                  two_digits (take 2 (drop 6 s)), parse_fraction (drop 9 s)) of
              (Some h, Some m, Some sec, Some us) \<Rightarrow> Some (h, m, sec, us)
            | _ \<Rightarrow> None)
      else None)"

definition parse_time :: "string \<Rightarrow> (nat \<times> nat \<times> nat \<times> nat) option" where
  "parse_time s =
     (case parse_hh_mm_ss_ff s of
        None \<Rightarrow> None
      | Some (h, m, sec, us) \<Rightarrow>
          if h < 24 \<and> m < 60 \<and> sec < 60 then Some (h, m, sec, us) else None)"

text \<open>
  The offset: absent (a naive value), or a sign and \<open>HH:MM\<close>, \<open>HH:MM:SS\<close> or
  \<open>HH:MM:SS.ffffff\<close>; the library builds a \<open>timezone\<close> from it, which takes an offset
  of less than a day.
\<close>

definition parse_offset :: "string \<Rightarrow> int option option" where
  "parse_offset s =
     (case s of
        [] \<Rightarrow> Some None
      | c # r \<Rightarrow>
          if (c = CHR ''+'' \<or> c = CHR ''-'') \<and> (length r = 5 \<or> length r = 8 \<or> length r = 15)
          then (case parse_hh_mm_ss_ff r of
                  None \<Rightarrow> None
                | Some (h, m, sec, us) \<Rightarrow>
                    (let secs = 3600 * int h + 60 * int m + int sec
                     in if secs < 86400
                        then Some (Some (if c = CHR ''-'' then - secs else secs))
                        else None))
          else None)"

definition is_sign :: "char \<Rightarrow> bool" where
  "is_sign c = (c = CHR ''+'' \<or> c = CHR ''-'')"

definition reference_fromisoformat :: "string \<Rightarrow> datetime option" where
  "reference_fromisoformat s =
     (case parse_date (take 10 s) of
        None \<Rightarrow> None
      | Some (y, mo, d) \<Rightarrow>
          if length s = 10
          then Some \<lparr> dt_year = y, dt_month = mo, dt_day = d, dt_hour = 0, dt_minute = 0,
                      dt_second = 0, dt_microsecond = 0, dt_utcoffset = None \<rparr>
          else (let t = drop 11 s;
                    clock = takeWhile (\<lambda>c. \<not> is_sign c) t;
                    off = dropWhile (\<lambda>c. \<not> is_sign c) t
                in case (parse_time clock, parse_offset off) of
                     (Some (h, mi, sec, us), Some tz) \<Rightarrow>
                       Some \<lparr> dt_year = y, dt_month = mo, dt_day = d, dt_hour = h,
                               dt_minute = mi, dt_second = sec, dt_microsecond = us,
                               dt_utcoffset = tz \<rparr>
                   | _ \<Rightarrow> None))"

text \<open>
  A stand-in digest for examples: sixty-four lower-case hexadecimal digits computed from
  the length and the first byte of the content. The theorems hold for any digest.
\<close>

definition hex_digit :: "nat \<Rightarrow> char" where
  "hex_digit n = (if n < 10 then char_of (48 + n) else char_of (87 + n))"

definition example_digest :: "string \<Rightarrow> string" where
  "example_digest bytes =
     (let a = (case bytes of [] \<Rightarrow> 0 | c # cs \<Rightarrow> code c)
      in replicate 60 (hex_digit (length bytes mod 16)) @
         [hex_digit (a div 16), hex_digit (a mod 16),
          hex_digit (length bytes div 16 mod 16), hex_digit (length bytes mod 16)])"

section \<open>The input tree\<close>

text \<open>
  The directory \<open>stamped/\<close> as the tool reads it: regular files with their modification
  time and bytes, and directories with their entries in the order \<open>iterdir\<close> yields them.
  A file of a group is an entry: its name and its node. Reading the bytes of a directory
  raises \<open>OSError\<close>; it stands for every file that cannot be read.
\<close>

datatype inode =
  IFile int string
  | IDir int "(string \<times> inode) list"

type_synonym entry = "string \<times> inode"

type_synonym path = "string list"

fun st_mtime :: "inode \<Rightarrow> int" where
  "st_mtime (IFile m c) = m"
| "st_mtime (IDir m es) = m"

fun is_dir :: "inode \<Rightarrow> bool" where
  "is_dir (IFile m c) = False"
| "is_dir (IDir m es) = True"

fun read_bytes :: "inode \<Rightarrow> py_error + string" where
  "read_bytes (IFile m c) = Inr c"
| "read_bytes (IDir m es) = Inl OSError"

definition sha256_file :: "pylib \<Rightarrow> entry \<Rightarrow> py_error + string" where
  "sha256_file L p =
     (case read_bytes (snd p) of
        Inl e \<Rightarrow> Inl e
      | Inr bytes \<Rightarrow> Inr (sha256_hex L bytes))"

text \<open>
  \<open>Path.suffix\<close> and \<open>Path.stem\<close>: the name is cut at its last dot, unless that dot is the
  first or the last character.
\<close>

fun rfind_dot :: "string \<Rightarrow> nat option" where
  "rfind_dot [] = None"
| "rfind_dot (c # cs) =
     (case rfind_dot cs of
        Some i \<Rightarrow> Some (Suc i)
      | None \<Rightarrow> if c = CHR ''.'' then Some 0 else None)"

definition suffix_of :: "string \<Rightarrow> string" where
  "suffix_of name =
     (case rfind_dot name of
        Some i \<Rightarrow> if 0 < i \<and> i < length name - 1 then drop i name else []
      | None \<Rightarrow> [])"

definition stem_of :: "string \<Rightarrow> string" where
  "stem_of name =
     (case rfind_dot name of
        Some i \<Rightarrow> if 0 < i \<and> i < length name - 1 then take i name else name
      | None \<Rightarrow> name)"

text \<open>\<open>sub in s\<close> for strings.\<close>

fun contains :: "string \<Rightarrow> string \<Rightarrow> bool" where
  "contains sub [] = (sub = [])"
| "contains sub (c # cs) = (take (length sub) (c # cs) = sub \<or> contains sub cs)"

text \<open>
  \<open>base_of\<close>: \<open>re.sub(r"(?i)(?:_)?(attestation|receipt)$", "", stem)\<close>. The annex word
  must end the stem (or stand just before its final newline); it goes together with an
  underscore before it.
\<close>

definition annex_word_rest :: "string \<Rightarrow> string option" where
  "annex_word_rest s =
     (if lower (take 11 s) = ''attestation'' \<and> at_end (drop 11 s) then Some (drop 11 s)
      else if lower (take 7 s) = ''receipt'' \<and> at_end (drop 7 s) then Some (drop 7 s)
      else None)"

fun base_of :: "string \<Rightarrow> string" where
  "base_of [] = []"
| "base_of (c # cs) =
     (case (if c = CHR ''_'' then annex_word_rest cs else None) of
        Some r \<Rightarrow> r
      | None \<Rightarrow>
          (case annex_word_rest (c # cs) of
             Some r \<Rightarrow> r
           | None \<Rightarrow> c # base_of cs))"

text \<open>\<open>re.sub(r"\.pdf$", "", name, flags=re.I)\<close> of \<open>pick_attestation_for\<close>.\<close>

fun strip_pdf_ext :: "string \<Rightarrow> string" where
  "strip_pdf_ext [] = []"
| "strip_pdf_ext (c # cs) =
     (if lower (take 4 (c # cs)) = ''.pdf'' \<and> at_end (drop 4 (c # cs)) then drop 4 (c # cs)
      else c # strip_pdf_ext cs)"

subsection \<open>Collecting a group\<close>

record folder_files =
  c_folder_label :: string
  c_base_slug :: string
  c_jsons :: "entry list"
  c_pdf_canons :: "entry list"
  c_attestations :: "entry list"
  c_screenshots :: "entry list"

text \<open>One turn of the loop of \<open>collect_folder\<close> over the sorted entries.\<close>

definition classify :: "entry \<Rightarrow> folder_files \<Rightarrow> folder_files" where
  "classify f acc =
     (let low = lower (fst f); suf = lower (suffix_of (fst f)) in
      if suf = ''.json'' then acc\<lparr>c_jsons := c_jsons acc @ [f]\<rparr>
      else if suf = ''.pdf'' \<and> (contains ''receipt'' low \<or> contains ''attestation'' low)
      then acc\<lparr>c_attestations := c_attestations acc @ [f]\<rparr>
      else if suf = ''.pdf'' then acc\<lparr>c_pdf_canons := c_pdf_canons acc @ [f]\<rparr>
      else if suf \<in> set [''.png'', ''.jpg'', ''.jpeg''] \<and>
              (contains ''woleet'' low \<or> contains ''receipt'' low \<or> contains ''attestation'' low)
      then acc\<lparr>c_screenshots := c_screenshots acc @ [f]\<rparr>
      else acc)"

text \<open>
  \<open>collect_folder\<close> on the group's name and entries. Paths of one directory sort by
  their names, compared code point by code point.
\<close>

definition collect_folder :: "string \<Rightarrow> entry list \<Rightarrow> folder_files" where
  "collect_folder name entries =
     fold classify (sort_key fst entries)
       \<lparr> c_folder_label = name, c_base_slug = base_slug_of name,
         c_jsons = [], c_pdf_canons = [], c_attestations = [], c_screenshots = [] \<rparr>"

fun pick_attestation_for :: "entry \<Rightarrow> entry list \<Rightarrow> entry option" where
  "pick_attestation_for pdf [] = None"
| "pick_attestation_for pdf (a # as) =
     (let pref = lower (strip_pdf_ext (fst pdf)); low = lower (fst a) in
      if contains pref low \<or> contains ''attestation'' low \<or> contains ''receipt'' low
      then Some a
      else pick_attestation_for pdf as)"

subsection \<open>The two indexes and the matcher\<close>

text \<open>
  \<open>pdf_index\<close>: the loop that hashes every document; a later document with the same hash
  replaces an earlier one, a document that cannot be hashed gives a warning (its name is
  collected) and no entry.
\<close>

fun build_pdf_index ::
  "pylib \<Rightarrow> entry list \<Rightarrow> (string \<rightharpoonup> entry) \<times> string list \<Rightarrow> (string \<rightharpoonup> entry) \<times> string list"
where
  "build_pdf_index L [] acc = acc"
| "build_pdf_index L (pdf # pdfs) (idx, failed) =
     (case sha256_file L pdf of
        Inr h \<Rightarrow> build_pdf_index L pdfs (idx(h \<mapsto> pdf), failed)
      | Inl e \<Rightarrow> build_pdf_index L pdfs (idx, failed @ [fst pdf]))"

text \<open>\<open>pdf_by_base\<close>: \<open>setdefault(b, []).append(pdf)\<close> for every document.\<close>

fun build_pdf_by_base :: "entry list \<Rightarrow> (string \<rightharpoonup> entry list) \<Rightarrow> (string \<rightharpoonup> entry list)" where
  "build_pdf_by_base [] m = m"
| "build_pdf_by_base (pdf # pdfs) m =
     (let b = lower (base_of (stem_of (fst pdf)))
      in build_pdf_by_base pdfs
           (m(b \<mapsto> (case m b of None \<Rightarrow> [] | Some ps \<Rightarrow> ps) @ [pdf])))"

text \<open>\<open>target and HEX64.match(target)\<close>.\<close>

definition trusted :: "string option \<Rightarrow> bool" where
  "trusted target = (case target of Some t \<Rightarrow> t \<noteq> [] \<and> HEX64_match t | None \<Rightarrow> False)"

text \<open>The loop over the candidates that stops at the first one whose hash is the target.\<close>

fun find_by_hash :: "pylib \<Rightarrow> string \<Rightarrow> entry list \<Rightarrow> py_error + entry option" where
  "find_by_hash L t [] = Inr None"
| "find_by_hash L t (c # cs) =
     (case sha256_file L c of
        Inl e \<Rightarrow> Inl e
      | Inr h \<Rightarrow> if lower h = t then Inr (Some c) else find_by_hash L t cs)"

definition oldest :: "entry list \<Rightarrow> entry" where
  "oldest candidates = hd (sort_key (\<lambda>p. (st_mtime (snd p), fst p)) candidates)"

text \<open>
  Lines 312 to 337 of \<open>main\<close>: the document chosen for the receipt file named \<open>jname\<close>
  whose declared hash is \<open>target\<close>; \<open>Inr None\<close> is the unmatched receipt.
\<close>

definition match_pdf ::
  "pylib \<Rightarrow> (string \<rightharpoonup> entry) \<Rightarrow> (string \<rightharpoonup> entry list) \<Rightarrow> string \<Rightarrow> string option
     \<Rightarrow> py_error + entry option"
where
  "match_pdf L pdf_index pdf_by_base jname target =
     (let base_json = lower (base_of (stem_of jname));
          candidates = (case pdf_by_base base_json of None \<Rightarrow> [] | Some ps \<Rightarrow> ps)
      in if candidates \<noteq> []
         then (if length candidates = 1 then Inr (Some (hd candidates))
               else (case (if trusted target then find_by_hash L (the target) candidates
                           else Inr None) of
                       Inl e \<Rightarrow> Inl e
                     | Inr (Some c) \<Rightarrow> Inr (Some c)
                     | Inr None \<Rightarrow> Inr (Some (oldest candidates))))
         else (if trusted target then Inr (pdf_index (the target)) else Inr None))"

section \<open>The output area and the run\<close>

subsection \<open>What a run produces\<close>

text \<open>
  The document block of a proof record, and the record with the fields that come from the
  input. The blocks and fields that are constants of the source (schema version,
  authorship, network name, the placeholders that are always \<open>None\<close>) are left out.
\<close>

record document =
  d_title :: string
  d_slug :: string
  d_version :: string
  d_filename :: string
  d_mimetype :: string
  d_size_bytes :: nat
  d_sha256 :: string

record proof_json =
  pj_document :: document
  pj_txid :: "string option"
  pj_block_height :: json
  pj_block_time_utc :: "string option"
  pj_proof_id :: json
  pj_link :: json
  pj_anchored_utc :: "string option"
  pj_notes :: string

record row =
  row_slug :: string
  row_filename :: string
  row_sha256 :: string
  row_bitcoin_txid :: string
  row_woleet_proof_id :: json
  row_anchored_utc :: string
  row_canonical_uri :: string
  row_title :: string
  row_version :: string
  row_mimetype :: string
  row_size_bytes :: nat

record index_line =
  ix_slug :: string
  ix_filename :: string
  ix_sha256 :: string
  ix_bitcoin_txid :: string
  ix_woleet_proof_id :: json
  ix_anchored_utc :: string

text \<open>
  What is printed, one constructor for each message of the source, with the values the
  message shows.
\<close>

datatype event =
  Info_paths
  | Err_missing_stamped
  | Warn_no_subdirs
  | Log_folder string string
  | Warn_no_json string
  | Warn_no_pdf string
  | Warn_hash_failed string
  | Warn_json_unreadable string
  | Warn_unmatched string string string
  | Warn_sha_mismatch string string string
  | Dry_transfer bool path path
  | Dry_write path
  | Ok_done nat
  | Warn_none_indexed


text \<open>
  What stands beside the input tree: a map from paths, lists of names from the root, to
  what stands there. The content of a written file is kept as the value that was
  written, before it is serialised. A symbolic link holds the path it leads to. The
  tool names paths below \<open>proofs/\<close> only, but a symbolic link on the way can lead a
  write anywhere, also into \<open>stamped/\<close>.

  The input tree is read as it stood when the run began. This is what the program reads
  as long as no write has reached a path below \<open>stamped/\<close>; the paths of the writes
  that did are kept in \<open>input_writes\<close>, in the order of the writes. From the first such
  write on the program may read what it wrote, which the definitions below do not follow:
  what the run decides is given for the runs that keep \<open>input_writes\<close> empty.
\<close>

datatype content =
  Bytes string
  | Proof proof_json
  | Text string
  | Mapping_csv "row list"
  | Index_jsonl "index_line list"

datatype onode =
  OFile content
  | ODir
  | OLink path

type_synonym outfs = "path \<rightharpoonup> onode"

record state =
  files :: outfs
  out :: "event list"
  rows :: "row list"
  index_lines :: "index_line list"
  input_writes :: "path list"

record args =
  a_symlink :: bool
  a_dry_run :: bool
  a_verbose :: bool

text \<open>
  A statement of the source is an action on the state; it ends normally (\<open>None\<close>) or
  raises. \<open>sys.exit(n)\<close> raises \<open>SystemExit\<close>.
\<close>

datatype raised = Error py_error | SystemExit nat

type_synonym action = "state \<Rightarrow> raised option \<times> state"

definition skip :: action where
  "skip st = (None, st)"

definition raise :: "raised \<Rightarrow> action" where
  "raise e st = (Some e, st)"

definition seq :: "action \<Rightarrow> action \<Rightarrow> action" where
  "seq f g st = (case f st of (Some e, st') \<Rightarrow> (Some e, st') | (None, st') \<Rightarrow> g st')"

fun for_each :: "('a \<Rightarrow> action) \<Rightarrow> 'a list \<Rightarrow> action" where
  "for_each f [] st = (None, st)"
| "for_each f (x # xs) st =
     (case f x st of (Some e, st') \<Rightarrow> (Some e, st') | (None, st') \<Rightarrow> for_each f xs st')"

definition emit :: "event \<Rightarrow> action" where
  "emit ev st = (None, st\<lparr>out := out st @ [ev]\<rparr>)"

definition log :: "event \<Rightarrow> bool \<Rightarrow> action" where
  "log ev verbose = (if verbose then emit ev else skip)"

text \<open>
  A change of the file system: it raises, or gives the new map and the resolved paths it
  has written. Those below \<open>stamped/\<close> are added to \<open>input_writes\<close>.
\<close>

definition in_input :: "path \<Rightarrow> bool" where
  "in_input p = (take 1 p = [''stamped''])"

definition on_files :: "(outfs \<Rightarrow> py_error + outfs \<times> path list) \<Rightarrow> action" where
  "on_files f st =
     (case f (files st) of
        Inl e \<Rightarrow> (Some (Error e), st)
      | Inr (fs, ws) \<Rightarrow>
          (None, st\<lparr>files := fs, input_writes := input_writes st @ filter in_input ws\<rparr>))"

definition exit_status :: "raised option \<Rightarrow> nat" where
  "exit_status r = (case r of None \<Rightarrow> 0 | Some (SystemExit n) \<Rightarrow> n | Some (Error e) \<Rightarrow> 1)"

subsection \<open>Paths\<close>

definition PROOFS :: path where
  "PROOFS = [''proofs'']"

definition BY_DOC :: path where
  "BY_DOC = [''proofs'', ''by-doc'']"

fun node_at :: "inode \<Rightarrow> path \<Rightarrow> inode option"
  and find_entry :: "(string \<times> inode) list \<Rightarrow> string \<Rightarrow> path \<Rightarrow> inode option"
where
  "node_at n [] = Some n"
| "node_at (IFile m c) (x # xs) = None"
| "node_at (IDir m es) (x # xs) = find_entry es x xs"
| "find_entry [] x xs = None"
| "find_entry (kn # es) x xs = (if fst kn = x then node_at (snd kn) xs else find_entry es x xs)"

text \<open>The node of the input area at a path below the root, the root itself being a directory.\<close>

definition input_at :: "inode option \<Rightarrow> path \<Rightarrow> inode option" where
  "input_at stamped p =
     (case p of
        [] \<Rightarrow> Some (IDir 0 [])
      | x # xs \<Rightarrow>
          if x = ''stamped'' then (case stamped of None \<Rightarrow> None | Some n \<Rightarrow> node_at n xs)
          else None)"

text \<open>
  The resolution of a path, name by name from the root: \<open>pre\<close> is the resolved part and
  has no link in it, \<open>rest\<close> the names still to walk. A symbolic link met on the way, at
  the last name as well, is replaced by the path it leads to; the walk gives up after
  forty links.
\<close>

function resolve :: "nat \<Rightarrow> outfs \<Rightarrow> path \<Rightarrow> path \<Rightarrow> path option" where
  "resolve n fs pre [] = Some pre"
| "resolve n fs pre (x # xs) =
     (case fs (pre @ [x]) of
        Some (OLink t) \<Rightarrow> if n = 0 then None else resolve (n - 1) fs [] (t @ xs)
      | _ \<Rightarrow> resolve n fs (pre @ [x]) xs)"
  by pat_completeness auto
termination
  by (relation "measures [\<lambda>(n, fs, pre, rest). n, \<lambda>(n, fs, pre, rest). length rest]") auto

definition realpath :: "outfs \<Rightarrow> path \<Rightarrow> path option" where
  "realpath fs p = resolve 40 fs [] p"

text \<open>The path with its directory resolved and its last name as it stands.\<close>

definition lpath :: "outfs \<Rightarrow> path \<Rightarrow> path option" where
  "lpath fs p =
     (if p = [] then Some [] else map_option (\<lambda>d. d @ [last p]) (realpath fs (butlast p)))"

text \<open>Something stands at a resolved path, be it a link that leads nowhere.\<close>

definition stands :: "inode option \<Rightarrow> outfs \<Rightarrow> path \<Rightarrow> bool" where
  "stands stamped fs q = (fs q \<noteq> None \<or> input_at stamped q \<noteq> None)"

text \<open>\<open>p.exists()\<close> and \<open>p.is_dir()\<close>: both follow the links.\<close>

definition path_exists :: "inode option \<Rightarrow> outfs \<Rightarrow> path \<Rightarrow> bool" where
  "path_exists stamped fs p =
     (case realpath fs p of
        None \<Rightarrow> False
      | Some q \<Rightarrow> stands stamped fs q)"

definition is_directory :: "inode option \<Rightarrow> outfs \<Rightarrow> path \<Rightarrow> bool" where
  "is_directory stamped fs p =
     (case realpath fs p of
        None \<Rightarrow> False
      | Some q \<Rightarrow>
          (case fs q of
             Some nd \<Rightarrow> nd = ODir
           | None \<Rightarrow> (case input_at stamped q of Some n \<Rightarrow> is_dir n | None \<Rightarrow> False)))"

text \<open>
  \<open>p.mkdir(parents=True, exist_ok=True)\<close>: every missing directory on the way is
  created; a name that is there and is no directory raises.
\<close>

fun mkdirs ::
  "inode option \<Rightarrow> path list \<Rightarrow> outfs \<times> path list \<Rightarrow> py_error + outfs \<times> path list"
where
  "mkdirs stamped [] acc = Inr acc"
| "mkdirs stamped (q # qs) acc =
     (if is_directory stamped (fst acc) q then mkdirs stamped qs acc
      else (case lpath (fst acc) q of
              None \<Rightarrow> Inl OSError
            | Some c \<Rightarrow>
                if stands stamped (fst acc) c then Inl OSError
                else mkdirs stamped qs ((fst acc)(c \<mapsto> ODir), snd acc @ [c])))"

definition mkdir_parents ::
  "inode option \<Rightarrow> path \<Rightarrow> outfs \<Rightarrow> py_error + outfs \<times> path list"
where
  "mkdir_parents stamped p fs =
     mkdirs stamped (map (\<lambda>n. take n p) [1..<Suc (length p)]) (fs, [])"

definition ensure_dir :: "inode option \<Rightarrow> path \<Rightarrow> bool \<Rightarrow> action" where
  "ensure_dir stamped p dry = (if dry then skip else on_files (mkdir_parents stamped p))"

text \<open>
  Opening a path for writing and writing a value: the links are followed, so that the
  file written is the one at the resolved path; it must be no directory and must stand
  in a directory.
\<close>

definition write_file ::
  "inode option \<Rightarrow> path \<Rightarrow> content \<Rightarrow> outfs \<Rightarrow> py_error + outfs \<times> path list"
where
  "write_file stamped p c fs =
     (case realpath fs p of
        None \<Rightarrow> Inl OSError
      | Some q \<Rightarrow>
          if is_directory stamped fs q \<or> \<not> is_directory stamped fs (butlast q) then Inl OSError
          else Inr (fs(q \<mapsto> OFile c), [q]))"

text \<open>
  \<open>os.symlink(os.path.relpath(src, start=dst.parent), dst)\<close> inside
  \<open>try ... except FileExistsError: pass\<close>: something at the destination, even a link
  that leads nowhere, leaves it as it is. The link holds the way from the directory of
  \<open>dst\<close> up to the root and down to \<open>src\<close>, computed on the names; it is walked from
  the directory the link stands in, which is another one when a link led there, and a
  step above the root is kept as the name \<open>..\<close>.
\<close>

definition link_target :: "path \<Rightarrow> path \<Rightarrow> path \<Rightarrow> path" where
  "link_target dir dst src =
     replicate (length (butlast dst) - length dir) ''..'' @
     take (length dir - length (butlast dst)) dir @ src"

definition try_symlink ::
  "inode option \<Rightarrow> path \<Rightarrow> path \<Rightarrow> outfs \<Rightarrow> py_error + outfs \<times> path list"
where
  "try_symlink stamped src dst fs =
     (case lpath fs dst of
        None \<Rightarrow> Inl OSError
      | Some c \<Rightarrow>
          if stands stamped fs c then Inr (fs, [])
          else if \<not> is_directory stamped fs (butlast c) then Inl OSError
          else Inr (fs(c \<mapsto> OLink (link_target (butlast c) dst src)), [c]))"

text \<open>\<open>shutil.copy2\<close>: the source is read first.\<close>

definition copy2 ::
  "inode option \<Rightarrow> inode \<Rightarrow> path \<Rightarrow> outfs \<Rightarrow> py_error + outfs \<times> path list"
where
  "copy2 stamped src dst fs =
     (case read_bytes src of
        Inl e \<Rightarrow> Inl e
      | Inr bytes \<Rightarrow> write_file stamped dst (Bytes bytes) fs)"

text \<open>A source of an annex: its path below the root and its node.\<close>

type_synonym source = "path \<times> inode"

definition copy_or_link ::
  "inode option \<Rightarrow> source \<Rightarrow> path \<Rightarrow> bool \<Rightarrow> bool \<Rightarrow> bool \<Rightarrow> action"
where
  "copy_or_link stamped src dst symlink dry verbose =
     (if dry then log (Dry_transfer symlink (fst src) dst) verbose
      else (\<lambda>st.
        if path_exists stamped (files st) dst then skip st
        else if symlink then on_files (try_symlink stamped (fst src) dst) st
        else on_files (copy2 stamped (snd src) dst) st))"

subsection \<open>Writing one proof set\<close>

definition checksums_line :: "string \<Rightarrow> string \<Rightarrow> string" where
  "checksums_line sha rel = ''SHA256  '' @ sha @ ''  '' @ rel @ [newline]"

definition write_proof_set ::
  "inode option \<Rightarrow> path \<Rightarrow> proof_json \<Rightarrow> string \<Rightarrow> source \<Rightarrow> source option \<Rightarrow> source list
     \<Rightarrow> bool \<Rightarrow> bool \<Rightarrow> bool \<Rightarrow> action"
where
  "write_proof_set stamped outdir pj rel_str receipt_json attestation_pdf shots symlink dry verbose =
     seq (ensure_dir stamped outdir dry)
    (seq (if dry then log (Dry_write (outdir @ [''proof.json''])) verbose
          else on_files (write_file stamped (outdir @ [''proof.json'']) (Proof pj)))
    (seq (if dry then log (Dry_write (outdir @ [''checksums.txt''])) verbose
          else on_files (write_file stamped (outdir @ [''checksums.txt''])
                           (Text (checksums_line (d_sha256 (pj_document pj)) rel_str))))
    (seq (copy_or_link stamped receipt_json (outdir @ [''woleet_receipt.json'']) symlink dry verbose)
    (seq (case attestation_pdf of
            None \<Rightarrow> skip
          | Some a \<Rightarrow> copy_or_link stamped a (outdir @ [''woleet_receipt.pdf'']) symlink dry verbose)
         (case shots of
            [] \<Rightarrow> skip
          | s # ss \<Rightarrow> copy_or_link stamped s (outdir @ [last (fst s)]) symlink dry verbose)))))"

subsection \<open>One receipt\<close>

text \<open>What the loop body has computed when it reaches \<open>write_proof_set\<close>.\<close>

record assembled =
  as_pdf :: entry
  as_warnings :: "event list"
  as_slug_version :: string
  as_proof_json :: proof_json
  as_attestation :: "entry option"
  as_row :: row
  as_index_line :: index_line

datatype decision = Skipped "event list" | Assembled assembled

definition rel_filename :: "string \<Rightarrow> string \<Rightarrow> string" where
  "rel_filename gname name = replace_char (CHR 0x5C) ''/'' (''stamped/'' @ gname @ ''/'' @ name)"

text \<open>\<open>slug_version.split("_", 1)[1] if "_" in slug_version else "v1-0"\<close>.\<close>

definition version_field :: "string \<Rightarrow> string" where
  "version_field slug_version =
     (if CHR ''_'' \<in> set slug_version
      then tl (dropWhile (\<lambda>c. c \<noteq> CHR ''_'') slug_version)
      else ''v1-0'')"

definition opt_str :: "string option \<Rightarrow> string" where
  "opt_str a = (case str_or a (Some []) of Some s \<Rightarrow> s | None \<Rightarrow> [])"

definition st_size :: "inode \<Rightarrow> nat" where
  "st_size n = (case n of IFile m c \<Rightarrow> length c | IDir m es \<Rightarrow> 0)"

definition notes_of :: "string \<Rightarrow> string" where
  "notes_of jname = ''Import depuis stamped/ ; re'' @ [CHR 0xE7] @ ''u = '' @ jname"

text \<open>
  Lines 340 to 430 of \<open>main\<close> without the writing: the metadata of the chosen document,
  the warning on a declared hash that differs, the slug, the proof record and the two
  aggregate lines.
\<close>

definition assemble ::
  "pylib \<Rightarrow> folder_files \<Rightarrow> string \<Rightarrow> receipt_info \<Rightarrow> entry \<Rightarrow> py_error + assembled"
where
  "assemble L c jname info pdf_match =
     (let mimetype = (case str_or (guess_type L (fst pdf_match)) (Some ''application/pdf'') of
                        Some s \<Rightarrow> s | None \<Rightarrow> []);
          size_bytes = st_size (snd pdf_match);
          target = r_sha256 info
      in case sha256_file L pdf_match of
           Inl e \<Rightarrow> Inl e
         | Inr calc_sha \<Rightarrow>
             (let slug_version = build_slug_version (c_base_slug c) (fst pdf_match)
                                   (c_folder_label c) (r_anchored_utc info);
                  rel = rel_filename (c_folder_label c) (fst pdf_match)
              in Inr \<lparr>
                   as_pdf = pdf_match,
                   as_warnings =
                     (if trusted target \<and> calc_sha \<noteq> the target
                      then [Warn_sha_mismatch (fst pdf_match) (take 12 calc_sha)
                              (take 12 (the target))]
                      else []),
                   as_slug_version = slug_version,
                   as_proof_json = \<lparr>
                     pj_document = \<lparr>
                       d_title = c_folder_label c,
                       d_slug = c_base_slug c,
                       d_version = version_field slug_version,
                       d_filename = rel,
                       d_mimetype = mimetype,
                       d_size_bytes = size_bytes,
                       d_sha256 = calc_sha \<rparr>,
                     pj_txid = r_txid info,
                     pj_block_height = r_block_height info,
                     pj_block_time_utc = r_anchored_utc info,
                     pj_proof_id = r_proof_id info,
                     pj_link = r_link info,
                     pj_anchored_utc = r_anchored_utc info,
                     pj_notes = notes_of jname \<rparr>,
                   as_attestation = pick_attestation_for pdf_match (c_attestations c),
                   as_row = \<lparr>
                     row_slug = slug_version,
                     row_filename = rel,
                     row_sha256 = calc_sha,
                     row_bitcoin_txid = opt_str (r_txid info),
                     row_woleet_proof_id = py_or (r_proof_id info) (JStr []),
                     row_anchored_utc = opt_str (r_anchored_utc info),
                     row_canonical_uri = [],
                     row_title = c_folder_label c,
                     row_version = version_field slug_version,
                     row_mimetype = mimetype,
                     row_size_bytes = size_bytes \<rparr>,
                   as_index_line = \<lparr>
                     ix_slug = slug_version,
                     ix_filename = rel,
                     ix_sha256 = calc_sha,
                     ix_bitcoin_txid = opt_str (r_txid info),
                     ix_woleet_proof_id = py_or (r_proof_id info) (JStr []),
                     ix_anchored_utc = opt_str (r_anchored_utc info) \<rparr> \<rparr>))"

text \<open>\<open>json.loads(jpath.read_text(encoding="utf-8"))\<close> inside its \<open>try\<close>.\<close>

definition load_receipt :: "pylib \<Rightarrow> entry \<Rightarrow> json option" where
  "load_receipt L jpath =
     (case read_bytes (snd jpath) of
        Inl e \<Rightarrow> None
      | Inr bytes \<Rightarrow> json_loads L bytes)"

definition hash_prefix :: "string option \<Rightarrow> string" where
  "hash_prefix target = (if str_truthy target then take 12 (the target) else ''None'')"

text \<open>
  The body of the loop over the receipts up to the call of \<open>write_proof_set\<close>: it reads
  the input only.
\<close>

definition decide_receipt ::
  "pylib \<Rightarrow> folder_files \<Rightarrow> (string \<rightharpoonup> entry) \<Rightarrow> (string \<rightharpoonup> entry list) \<Rightarrow> entry
     \<Rightarrow> py_error + decision"
where
  "decide_receipt L c pdf_index pdf_by_base jpath =
     (case load_receipt L jpath of
        None \<Rightarrow> Inr (Skipped [Warn_json_unreadable (fst jpath)])
      | Some jdata \<Rightarrow>
          (case parse_woleet_receipt L jdata of
             Inl e \<Rightarrow> Inl e
           | Inr info \<Rightarrow>
               (case match_pdf L pdf_index pdf_by_base (fst jpath) (r_sha256 info) of
                  Inl e \<Rightarrow> Inl e
                | Inr None \<Rightarrow>
                    Inr (Skipped [Warn_unmatched (fst jpath)
                                    (lower (base_of (stem_of (fst jpath))))
                                    (hash_prefix (r_sha256 info))])
                | Inr (Some pdf_match) \<Rightarrow>
                    (case assemble L c (fst jpath) info pdf_match of
                       Inl e \<Rightarrow> Inl e
                     | Inr a \<Rightarrow> Inr (Assembled a)))))"

definition source_in :: "string \<Rightarrow> entry \<Rightarrow> source" where
  "source_in gname f = ([''stamped'', gname, fst f], snd f)"

definition append_lines :: "row \<Rightarrow> index_line \<Rightarrow> action" where
  "append_lines r i st = (None, st\<lparr>rows := rows st @ [r], index_lines := index_lines st @ [i]\<rparr>)"

definition process_receipt ::
  "pylib \<Rightarrow> args \<Rightarrow> inode option \<Rightarrow> folder_files \<Rightarrow> (string \<rightharpoonup> entry)
     \<Rightarrow> (string \<rightharpoonup> entry list) \<Rightarrow> entry \<Rightarrow> action"
where
  "process_receipt L ar stamped c pdf_index pdf_by_base jpath =
     (case decide_receipt L c pdf_index pdf_by_base jpath of
        Inl e \<Rightarrow> raise (Error e)
      | Inr (Skipped evs) \<Rightarrow> for_each emit evs
      | Inr (Assembled a) \<Rightarrow>
          seq (for_each emit (as_warnings a))
         (seq (write_proof_set stamped (BY_DOC @ [as_slug_version a]) (as_proof_json a)
                 (d_filename (pj_document (as_proof_json a)))
                 (source_in (c_folder_label c) jpath)
                 (map_option (source_in (c_folder_label c)) (as_attestation a))
                 (map (source_in (c_folder_label c)) (c_screenshots c))
                 (a_symlink ar) (a_dry_run ar) (a_verbose ar))
              (append_lines (as_row a) (as_index_line a))))"

subsection \<open>One group and the whole run\<close>

fun entries_of :: "inode \<Rightarrow> entry list" where
  "entries_of (IFile m c) = []"
| "entries_of (IDir m es) = es"

definition process_group :: "pylib \<Rightarrow> args \<Rightarrow> inode option \<Rightarrow> entry \<Rightarrow> action" where
  "process_group L ar stamped d =
     (let c = collect_folder (fst d) (entries_of (snd d)) in
      seq (log (Log_folder (c_folder_label c) (c_base_slug c)) (a_verbose ar))
          (if c_jsons c = [] then emit (Warn_no_json (fst d))
           else if c_pdf_canons c = [] then emit (Warn_no_pdf (fst d))
           else (let indexed = build_pdf_index L (c_pdf_canons c) (Map.empty, []);
                     pdf_by_base = build_pdf_by_base (c_pdf_canons c) Map.empty
                 in seq (for_each (\<lambda>n. emit (Warn_hash_failed n)) (snd indexed))
                        (for_each (process_receipt L ar stamped c (fst indexed) pdf_by_base)
                           (c_jsons c)))))"

text \<open>The end of \<open>main\<close>: the two aggregate files, written when there is a row.\<close>

definition finish :: "inode option \<Rightarrow> args \<Rightarrow> action" where
  "finish stamped ar st =
     (if rows st \<noteq> []
      then seq (if \<not> a_dry_run ar
                then seq (on_files (write_file stamped (PROOFS @ [''mapping.csv''])
                                      (Mapping_csv (rows st))))
                         (on_files (write_file stamped (PROOFS @ [''index.jsonl''])
                                      (Index_jsonl (index_lines st))))
                else skip)
               (emit (Ok_done (length (rows st)))) st
      else emit Warn_none_indexed st)"

text \<open>
  \<open>main\<close> on the directory \<open>stamped\<close> (\<open>None\<close> when it does not exist).
  \<open>iterdir\<close> on a regular file raises.
\<close>

definition main :: "pylib \<Rightarrow> args \<Rightarrow> inode option \<Rightarrow> action" where
  "main L ar stamped =
     seq (emit Info_paths)
       (case stamped of
          None \<Rightarrow> seq (emit Err_missing_stamped) (raise (SystemExit 1))
        | Some root \<Rightarrow>
            seq (ensure_dir stamped PROOFS (a_dry_run ar))
           (seq (ensure_dir stamped BY_DOC (a_dry_run ar))
              (case root of
                 IFile m c \<Rightarrow> raise (Error OSError)
               | IDir m es \<Rightarrow>
                   (let subdirs = filter (\<lambda>p. is_dir (snd p)) es in
                    seq (if subdirs = [] then emit Warn_no_subdirs else skip)
                   (seq (for_each (process_group L ar stamped)
                           (sort_key (\<lambda>p. lower (fst p)) subdirs))
                        (finish stamped ar))))))"

definition start :: "outfs \<Rightarrow> state" where
  "start fs = \<lparr> files = fs, out = [], rows = [], index_lines = [], input_writes = [] \<rparr>"

text \<open>
  The library used in the examples. Its \<open>json.loads\<close> knows the empty object, the
  empty list and the object with the one key \<open>targetHash\<close> and a string of sixty-four
  characters; any other text stands for a file that does not parse.
\<close>

definition example_loads :: "string \<Rightarrow> json option" where
  \<open>example_loads bytes =
     (if bytes = ''{}'' then Some (JObj [])
      else if bytes = ''[]'' then Some (JArr [])
      else if take 16 bytes = ''{"targetHash": "'' \<and> drop 80 bytes = ''"}''
      then Some (JObj [(''targetHash'', JStr (take 64 (drop 16 bytes)))])
      else None)\<close>

definition example_lib :: pylib where
  "example_lib =
     \<lparr> sha256_hex = example_digest,
       json_loads = example_loads,
       fromisoformat = reference_fromisoformat,
       guess_type = (\<lambda>name. if lower (suffix_of name) = ''.pdf'' then Some ''application/pdf''
                             else None) \<rparr>"

section \<open>Inputs of the examples\<close>

text \<open>Two anchor entries of the ledger family, each with its own values.\<close>

definition two_anchors :: "json list" where
  "two_anchors =
     [JObj [(''type'', JStr ''btc''), (''txId'', JStr ''aa''), (''blockHeight'', JInt 1)],
      JObj [(''type'', JStr ''bitcoin''), (''txId'', JStr ''bb''), (''blockHeight'', JInt 2)]]"

text \<open>
  A receipt with three anchor entries, the last of another ledger, the middle one with a
  time that is no date, and its own \<open>created\<close> date.
\<close>

definition anchored_receipt :: "(string \<times> json) list" where
  "anchored_receipt =
     [(''anchors'',
       JArr [JObj [(''type'', JStr ''btc''), (''txId'', JStr ''AA''),
                   (''time'', JStr ''2024-01-01T00:00:00Z'')],
             JObj [(''type'', JStr ''btc''), (''txId'', JStr ''BB''), (''blockHeight'', JInt 7),
                   (''time'', JStr ''garbage'')],
             JObj [(''type'', JStr ''eth''), (''txId'', JStr ''CC''),
                   (''time'', JStr ''2021-03-03T00:00:00Z'')]]),
      (''created'', JStr ''2020-02-02'')]"

text \<open>The options of the examples: copies, no dry run, no trace.\<close>

definition plain_args :: args where
  "plain_args = \<lparr> a_symlink = False, a_dry_run = False, a_verbose = False \<rparr>"

text \<open>The text of a receipt that declares a target hash.\<close>

definition receipt_declaring :: "string \<Rightarrow> string" where
  \<open>receipt_declaring h = ''{"targetHash": "'' @ h @ ''"}''\<close>

text \<open>
  The group \<open>Report_v2\<close> with the documents \<open>A.pdf\<close> and \<open>B.pdf\<close> and a receipt that
  declares the hash of \<open>B.pdf\<close>, once named after \<open>B\<close> and once named after \<open>A\<close>.
\<close>

definition group_report_v2 :: "string \<Rightarrow> entry" where
  "group_report_v2 receipt_name =
     (''Report_v2'',
      IDir 0 [(''A.pdf'', IFile 1 ''a''), (''B.pdf'', IFile 2 ''bb''),
              (receipt_name, IFile 3 (receipt_declaring (example_digest ''bb'')))])"

text \<open>
  A group with one document and one receipt: the receipt declares no hash and is named
  after the document, or after the provider.
\<close>

definition group_report :: "string \<Rightarrow> entry" where
  "group_report receipt_name =
     (''Report'', IDir 0 [(''Report.pdf'', IFile 5 ''hello''), (receipt_name, IFile 6 ''{}'')])"

text \<open>
  The decision for the receipt \<open>A.json\<close> of the group \<open>Report_v2\<close>, which declares the
  hash of \<open>B.pdf\<close> and is paired by name with \<open>A.pdf\<close>.
\<close>

definition mismatch_decision :: "py_error + decision" where
  "mismatch_decision =
     (let c = collect_folder ''Report_v2'' (entries_of (snd (group_report_v2 ''A.json'')))
      in decide_receipt example_lib c
           (fst (build_pdf_index example_lib (c_pdf_canons c) (Map.empty, [])))
           (build_pdf_by_base (c_pdf_canons c) Map.empty)
           (''A.json'', IFile 3 (receipt_declaring (example_digest ''bb''))))"


definition group_with_list_receipt :: entry where
  "group_with_list_receipt =
     (''Report'', IDir 0 [(''Report.pdf'', IFile 5 ''hello''), (''Report.json'', IFile 6 ''[]'')])"

text \<open>An output area in which the receipt of \<open>report_v1-0\<close> has been copied before.\<close>

definition earlier_output :: outfs where
  "earlier_output =
     [[''proofs''] \<mapsto> ODir,
      [''proofs'', ''by-doc''] \<mapsto> ODir,
      [''proofs'', ''by-doc'', ''report_v1-0''] \<mapsto> ODir,
      [''proofs'', ''by-doc'', ''report_v1-0'', ''woleet_receipt.json''] \<mapsto> OFile (Bytes ''old'')]"

text \<open>
  Two groups, and an output area in which the proof record of the first group is a
  symbolic link to the receipt of the second, or the directory of the first group a
  symbolic link to the directory of the second.
\<close>

definition two_groups :: inode where
  "two_groups =
     IDir 0 [(''A'', IDir 0 [(''A.pdf'', IFile 1 ''aaa''), (''A.json'', IFile 2 ''{}'')]),
             (''B'', IDir 0 [(''B.pdf'', IFile 3 ''bbb''),
                             (''w.json'', IFile 4 (receipt_declaring (example_digest ''bbb'')))])]"

definition linked_output :: outfs where
  "linked_output =
     [[''proofs''] \<mapsto> ODir,
      [''proofs'', ''by-doc''] \<mapsto> ODir,
      [''proofs'', ''by-doc'', ''a_v1-0''] \<mapsto> ODir,
      [''proofs'', ''by-doc'', ''a_v1-0'', ''proof.json''] \<mapsto> OLink [''stamped'', ''B'', ''w.json'']]"

definition linked_dir_output :: outfs where
  "linked_dir_output =
     [[''proofs''] \<mapsto> ODir,
      [''proofs'', ''by-doc''] \<mapsto> ODir,
      [''proofs'', ''by-doc'', ''a_v1-0''] \<mapsto> OLink [''stamped'', ''B'']]"

section \<open>Notions used to compare runs\<close>



text \<open>An action that never ends by \<open>sys.exit\<close>.\<close>

definition no_exit :: "action \<Rightarrow> bool" where
  "no_exit act = (\<forall>st n. fst (act st) \<noteq> Some (SystemExit n))"




section \<open>Properties of the version resolver\<close>

lemma version_token_nonempty: "version_token s = Some (t, r) \<Longrightarrow> t \<noteq> []"
  by (auto simp: version_token_def split: list.splits if_splits prod.splits)

lemma search_after_sep_nonempty: "search_after_sep s = Some t \<Longrightarrow> t \<noteq> []"
  by (induction s) (auto split: if_splits option.splits dest: version_token_nonempty)

lemma search_version_nonempty: "search_version s = Some t \<Longrightarrow> t \<noteq> []"
  by (auto simp: search_version_def split: option.splits
      dest: version_token_nonempty search_after_sep_nonempty)

lemma replace_char_nonempty: "s \<noteq> [] \<Longrightarrow> b \<noteq> [] \<Longrightarrow> replace_char a b s \<noteq> []"
  by (cases s) (auto simp: replace_char_def)

lemma parse_version_nonempty:
  assumes "parse_version_from_name n = Some v"
  shows "v \<noteq> []"
proof -
  from assms obtain t where t: "search_version n = Some t"
    and v: "v = replace_char (CHR ''.'') ''-'' (lower t)"
    by (auto simp: parse_version_from_name_def split: option.splits)
  from t have "lower t \<noteq> []"
    by (auto simp: lower_def dest: search_version_nonempty)
  then show ?thesis
    unfolding v by (rule replace_char_nonempty) simp
qed

lemma resolve_version_cases:
  "resolve_version pdf_name folder_label =
     (case parse_version_from_name pdf_name of
        Some v \<Rightarrow> v
      | None \<Rightarrow> (case parse_version_from_name folder_label of
                   Some v \<Rightarrow> v
                 | None \<Rightarrow> ''v1-0''))"
  by (auto simp: resolve_version_def str_or_def str_truthy_def Let_def
      split: option.splits list.splits dest: parse_version_nonempty)

text \<open>
  Claim C5. The version embedded in the composite slug is the token found in the matched
  document's file name, else the token found in the group label, else the default
  \<open>v1-0\<close>, which is the default token \<open>v1.0\<close> lower-cased with its dots replaced by
  dashes. A token is what \<open>parse_version_from_name\<close> finds.
\<close>

theorem version_priority:
  "build_slug_version base_slug pdf_name folder_label utc =
     base_slug @ ''_'' @
       (case parse_version_from_name pdf_name of
          Some v \<Rightarrow> v
        | None \<Rightarrow> (case parse_version_from_name folder_label of
                     Some v \<Rightarrow> v
                   | None \<Rightarrow> ''v1-0''))
   \<and> replace_char (CHR ''.'') ''-'' (lower ''v1.0'') = ''v1-0''"
proof -
  have "replace_char (CHR ''.'') ''-'' (lower ''v1.0'') = ''v1-0''"
    by code_simp
  then show ?thesis
    by (simp add: build_slug_version_def resolve_version_cases)
qed

theorem version_priority_witness:
  "build_slug_version ''report'' ''Report_V3.1.pdf'' ''Report_v2'' None = ''report_v3-1''
   \<and> build_slug_version ''report'' ''Report.pdf'' ''Report_v2'' None = ''report_v2''
   \<and> build_slug_version ''report'' ''Report.pdf'' ''Report'' None = ''report_v1-0''"
proof -
  have a: "parse_version_from_name ''Report_V3.1.pdf'' = Some ''v3-1''" by code_simp
  have b: "parse_version_from_name ''Report.pdf'' = None" by code_simp
  have c: "parse_version_from_name ''Report_v2'' = Some ''v2''" by code_simp
  have d: "parse_version_from_name ''Report'' = None" by code_simp
  show ?thesis
    using version_priority [of "''report''" "''Report_V3.1.pdf''" "''Report_v2''" None]
      version_priority [of "''report''" "''Report.pdf''" "''Report_v2''" None]
      version_priority [of "''report''" "''Report.pdf''" "''Report''" None]
    by (simp add: a b c d)
qed

section \<open>Properties of the receipt normaliser\<close>

lemma scan_anchors_append:
  "scan_anchors st (xs @ ys) =
     (case scan_anchors st xs of Inl e \<Rightarrow> Inl e | Inr st' \<Rightarrow> scan_anchors st' ys)"
  by (induction xs arbitrary: st) (auto split: sum.splits)

lemma anchor_step_qualifying:
  "qualifies kv \<Longrightarrow>
   anchor_step (t, h, b) (JObj kv) =
     Inr (py_or (anchor_txid kv) t, py_or (anchor_height kv) h, py_or (anchor_time kv) b)"
  by (simp add: anchor_step_def)

lemma scan_keeps_txid:
  "scan_anchors (t, h, b) post = Inr (t', h', b') \<Longrightarrow>
   \<forall>kv. JObj kv \<in> set post \<and> qualifies kv \<longrightarrow> \<not> truthy (anchor_txid kv) \<Longrightarrow> t' = t"
proof (induction post arbitrary: t h b)
  case Nil
  then show ?case by simp
next
  case (Cons a post)
  then show ?case
    by (cases a) (auto simp: anchor_step_def py_or_def split: if_splits)
qed

lemma scan_keeps_height:
  "scan_anchors (t, h, b) post = Inr (t', h', b') \<Longrightarrow>
   \<forall>kv. JObj kv \<in> set post \<and> qualifies kv \<longrightarrow> \<not> truthy (anchor_height kv) \<Longrightarrow> h' = h"
proof (induction post arbitrary: t h b)
  case Nil
  then show ?case by simp
next
  case (Cons a post)
  then show ?case
    by (cases a) (auto simp: anchor_step_def py_or_def split: if_splits)
qed

lemma scan_keeps_time:
  "scan_anchors (t, h, b) post = Inr (t', h', b') \<Longrightarrow>
   \<forall>kv. JObj kv \<in> set post \<and> qualifies kv \<longrightarrow> \<not> truthy (anchor_time kv) \<Longrightarrow> b' = b"
proof (induction post arbitrary: t h b)
  case Nil
  then show ?case by simp
next
  case (Cons a post)
  then show ?case
    by (cases a) (auto simp: anchor_step_def py_or_def split: if_splits)
qed

lemma scan_split:
  assumes "scan_anchors st0 (pre @ JObj kv # post) = Inr r" and "qualifies kv"
  obtains t h b where "scan_anchors st0 pre = Inr (t, h, b)"
    and "scan_anchors (py_or (anchor_txid kv) t, py_or (anchor_height kv) h,
            py_or (anchor_time kv) b) post = Inr r"
proof -
  from assms(1) obtain st1 where 1: "scan_anchors st0 pre = Inr st1"
    and 2: "scan_anchors st1 (JObj kv # post) = Inr r"
    by (auto simp: scan_anchors_append split: sum.splits)
  obtain t h b where st1: "st1 = (t, h, b)" by (cases st1)
  from 2 have "scan_anchors (py_or (anchor_txid kv) t, py_or (anchor_height kv) h,
      py_or (anchor_time kv) b) post = Inr r"
    by (simp add: st1 anchor_step_qualifying [OF assms(2)])
  with 1 st1 that show thesis by blast
qed

text \<open>
  The loop over the anchor entries keeps, for each of its three variables, the value of
  the last qualifying entry that carries a truthy one.
\<close>

lemma scan_last_value:
  assumes "scan_anchors st0 (pre @ JObj kv # post) = Inr (txid, block_height, block_time)"
    and "qualifies kv"
  shows "(truthy (anchor_txid kv) \<and>
           (\<forall>kv'. JObj kv' \<in> set post \<and> qualifies kv' \<longrightarrow> \<not> truthy (anchor_txid kv'))
          \<longrightarrow> txid = anchor_txid kv)
       \<and> (truthy (anchor_height kv) \<and>
           (\<forall>kv'. JObj kv' \<in> set post \<and> qualifies kv' \<longrightarrow> \<not> truthy (anchor_height kv'))
          \<longrightarrow> block_height = anchor_height kv)
       \<and> (truthy (anchor_time kv) \<and>
           (\<forall>kv'. JObj kv' \<in> set post \<and> qualifies kv' \<longrightarrow> \<not> truthy (anchor_time kv'))
          \<longrightarrow> block_time = anchor_time kv)"
proof -
  from assms obtain t h b where
    post: "scan_anchors (py_or (anchor_txid kv) t, py_or (anchor_height kv) h,
             py_or (anchor_time kv) b) post = Inr (txid, block_height, block_time)"
    by (rule scan_split)
  show ?thesis
    using scan_keeps_txid [OF post] scan_keeps_height [OF post] scan_keeps_time [OF post]
    by (auto simp: py_or_def)
qed

theorem first_anchor_overridden:
  "map_sum id r_txid
     (parse_woleet_receipt example_lib (JObj [(''anchors'', JArr two_anchors)])) = Inr (Some ''bb'')
   \<and> map_sum id r_block_height
     (parse_woleet_receipt example_lib (JObj [(''anchors'', JArr two_anchors)])) = Inr (JInt 2)"
  by code_simp

subsection \<open>The anchoring time\<close>

lemma strftime_nonempty: "strftime dt \<noteq> []"
  by (simp add: strftime_def)

lemma norm_iso_nonempty: "norm_iso L v = Some s \<Longrightarrow> s \<noteq> []"
  by (auto simp: norm_iso_def strftime_nonempty split: if_splits option.splits)

lemma str_or_None: "str_or None b = b"
  by (simp add: str_or_def)

lemma str_or_Some: "s \<noteq> [] \<Longrightarrow> str_or (Some s) b = Some s"
  by (cases s) (simp_all add: str_or_def)

text \<open>
  The resolution order of the anchoring time: the time kept from the anchor entries, then
  the keys \<open>blockTime\<close>, \<open>anchoredOn\<close> and \<open>created\<close> of the receipt; the first that
  \<open>norm_iso\<close> accepts is the result, and there is none when it accepts none. Every
  case is a value: \<open>norm_iso\<close> raises nothing.
\<close>

lemma resolve_anchored_utc_order:
  "resolve_anchored_utc L block_time kv =
     (case norm_iso L block_time of
        Some s \<Rightarrow> Some s
      | None \<Rightarrow>
          (case norm_iso L (dict_get kv ''blockTime'') of
             Some s \<Rightarrow> Some s
           | None \<Rightarrow>
               (case norm_iso L (dict_get kv ''anchoredOn'') of
                  Some s \<Rightarrow> Some s
                | None \<Rightarrow> norm_iso L (dict_get kv ''created''))))"
  using norm_iso_nonempty [of L block_time]
    norm_iso_nonempty [of L "dict_get kv ''blockTime''"]
    norm_iso_nonempty [of L "dict_get kv ''anchoredOn''"]
  by (auto simp: resolve_anchored_utc_def str_or_None str_or_Some split: option.splits)

lemma is_digit_digit_char: "d < 10 \<Longrightarrow> is_digit (digit_char d)"
  by (simp add: is_digit_def digit_char_def code_def)

lemma dec_digits: "list_all is_digit (dec n)"
proof (induction n rule: dec.induct)
  case (1 n)
  show ?case
  proof (cases "n < 10")
    case True
    then show ?thesis by (subst dec.simps) (simp add: is_digit_digit_char)
  next
    case False
    with 1 show ?thesis by (subst dec.simps) (simp add: is_digit_digit_char)
  qed
qed

lemma length_dec: "0 < k \<Longrightarrow> n < 10 ^ k \<Longrightarrow> length (dec n) \<le> k"
proof (induction k arbitrary: n)
  case 0
  then show ?case by simp
next
  case (Suc k)
  show ?case
  proof (cases "n < 10")
    case True
    then show ?thesis by (subst dec.simps) simp
  next
    case False
    then have k: "0 < k" using Suc.prems by (cases k) auto
    have "n div 10 < 10 ^ k" using Suc.prems by (simp add: less_mult_imp_div_less mult.commute)
    then have "length (dec (n div 10)) \<le> k" using Suc.IH k by blast
    with False show ?thesis by (subst dec.simps) simp
  qed
qed

lemma zpad_shape:
  "0 < w \<Longrightarrow> n < 10 ^ w \<Longrightarrow> length (zpad w n) = w \<and> list_all is_digit (zpad w n)"
proof -
  assume w: "0 < w" "n < 10 ^ w"
  have zero: "is_digit (CHR ''0'')" by code_simp
  from w have "length (dec n) \<le> w" by (rule length_dec)
  then show ?thesis
    using dec_digits [of n] zero by (auto simp: zpad_def list_all_iff)
qed

lemma length_dec_lower: "10 ^ k \<le> n \<Longrightarrow> k < length (dec n)"
proof (induction k arbitrary: n)
  case 0
  then show ?case by (subst dec.simps) simp
next
  case (Suc k)
  then have n: "\<not> n < 10" "10 ^ k \<le> n div 10"
    by (auto simp: not_less intro: order_trans [of 10 "10 * 10 ^ k"])
  with Suc.IH [of "n div 10"] show ?case by (subst dec.simps) simp
qed

lemma year_shape:
  assumes "1000 \<le> n" "n < 10000"
  shows "length (dec n) = 4"
  using length_dec [of 4 n] length_dec_lower [of 3 n] assms by simp

text \<open>
  The shape of a resolved time: for a year of four digits and the other calendar fields
  in their ranges it is four digits, two digits five times and a final Z, twenty
  characters in all, with no fraction of a second. A year below 1000 is written with
  fewer digits.
\<close>

lemma strftime_shape:
  assumes "1000 \<le> dt_year dt" "dt_year dt < 10000" "dt_month dt < 100" "dt_day dt < 100"
    "dt_hour dt < 100" "dt_minute dt < 100" "dt_second dt < 100"
  shows "\<exists>y mo d h mi s.
           strftime dt = y @ ''-'' @ mo @ ''-'' @ d @ ''T'' @ h @ '':'' @ mi @ '':'' @ s @ ''Z''
           \<and> length y = 4 \<and> list_all is_digit y
           \<and> (\<forall>f \<in> {mo, d, h, mi, s}. length f = 2 \<and> list_all is_digit f)"
  using assms year_shape [of "dt_year dt"] dec_digits [of "dt_year dt"]
    zpad_shape [of 2 "dt_month dt"]
    zpad_shape [of 2 "dt_day dt"] zpad_shape [of 2 "dt_hour dt"]
    zpad_shape [of 2 "dt_minute dt"] zpad_shape [of 2 "dt_second dt"]
  unfolding strftime_def by (intro exI conjI) (rule refl, simp_all)

lemma strftime_short_year:
  "strftime \<lparr> dt_year = 999, dt_month = 1, dt_day = 1, dt_hour = 0, dt_minute = 0,
                dt_second = 0, dt_microsecond = 0, dt_utcoffset = None \<rparr> =
   ''999-01-01T00:00:00Z''"
  by code_simp

lemma lower_if_truthy_Inr:
  "lower_if_truthy x = Inr r \<Longrightarrow> truthy x \<Longrightarrow> \<exists>s. x = JStr s \<and> r = Some (lower s)"
  by (cases x) (auto simp: lower_if_truthy_def)

text \<open>
  Claim C2, as the code has it. When the receipt is normalised, its resolved transaction
  id is the lower-cased transaction id of the last qualifying anchor entry that carries a
  truthy one, and its resolved block height is the block height of the last qualifying
  entry that carries a truthy one: a later entry replaces what earlier entries set. The
  time offered to the resolution is the time of the last qualifying entry that carries a
  truthy one; the resolved time is that value when \<open>norm_iso\<close> accepts it, and else the
  first of the receipt's own \<open>blockTime\<close>, \<open>anchoredOn\<close> and \<open>created\<close> that it
  accepts, never the time of another entry.
\<close>

theorem resolved_from_last_anchor_value:
  assumes parsed: "parse_woleet_receipt L (JObj kv) = Inr info"
    and entries: "anchor_entries (py_or (py_or (dict_get kv ''anchors'') (dict_get kv ''anchor''))
                    (JArr [])) = Inr (pre @ JObj a # post)"
    and q: "qualifies a"
  shows "(truthy (anchor_txid a) \<and>
           (\<forall>a'. JObj a' \<in> set post \<and> qualifies a' \<longrightarrow> \<not> truthy (anchor_txid a'))
          \<longrightarrow> (\<exists>s. anchor_txid a = JStr s \<and> r_txid info = Some (lower s)))
       \<and> (truthy (anchor_height a) \<and>
           (\<forall>a'. JObj a' \<in> set post \<and> qualifies a' \<longrightarrow> \<not> truthy (anchor_height a'))
          \<longrightarrow> r_block_height info = anchor_height a)
       \<and> (truthy (anchor_time a) \<and>
           (\<forall>a'. JObj a' \<in> set post \<and> qualifies a' \<longrightarrow> \<not> truthy (anchor_time a'))
          \<longrightarrow> r_anchored_utc info =
                (case norm_iso L (anchor_time a) of
                   Some t \<Rightarrow> Some t
                 | None \<Rightarrow>
                     (case norm_iso L (dict_get kv ''blockTime'') of
                        Some t \<Rightarrow> Some t
                      | None \<Rightarrow>
                          (case norm_iso L (dict_get kv ''anchoredOn'') of
                             Some t \<Rightarrow> Some t
                           | None \<Rightarrow> norm_iso L (dict_get kv ''created'')))))"
proof -
  from parsed obtain target txid0 block_height block_time where
    scan: "resolve_anchors kv = Inr (txid0, block_height, block_time)"
    and tx: "lower_if_truthy (py_or (py_or (py_or txid0 (dict_get kv ''txid''))
                (dict_get kv ''txId'')) JNull) = Inr (r_txid info)"
    and bh: "r_block_height info = block_height"
    and utc: "r_anchored_utc info = resolve_anchored_utc L block_time kv"
    by (auto simp: parse_woleet_receipt_def Let_def split: sum.splits prod.splits)
  from scan entries have loop:
    "scan_anchors (JNull, JNull, JNull) (pre @ JObj a # post) = Inr (txid0, block_height, block_time)"
    by (simp add: resolve_anchors_def)
  note last = scan_last_value [OF loop q]
  have 1: "\<exists>s. anchor_txid a = JStr s \<and> r_txid info = Some (lower s)"
    if "truthy (anchor_txid a)"
      and "\<forall>a'. JObj a' \<in> set post \<and> qualifies a' \<longrightarrow> \<not> truthy (anchor_txid a')"
  proof -
    from last that have t: "txid0 = anchor_txid a" by blast
    with that(1) have "py_or (py_or (py_or txid0 (dict_get kv ''txid''))
        (dict_get kv ''txId'')) JNull = anchor_txid a"
      by (simp add: py_or_def)
    with tx that(1) show ?thesis
      using lower_if_truthy_Inr [of "anchor_txid a" "r_txid info"] by simp
  qed
  have 2: "r_block_height info = anchor_height a"
    if "truthy (anchor_height a)"
      and "\<forall>a'. JObj a' \<in> set post \<and> qualifies a' \<longrightarrow> \<not> truthy (anchor_height a')"
    using last that bh by blast
  have 3: "r_anchored_utc info = resolve_anchored_utc L (anchor_time a) kv"
    if "truthy (anchor_time a)"
      and "\<forall>a'. JObj a' \<in> set post \<and> qualifies a' \<longrightarrow> \<not> truthy (anchor_time a')"
    using last that utc by blast
  from 1 2 3 show ?thesis
    by (simp only: resolve_anchored_utc_order [symmetric]) blast
qed

theorem resolved_from_last_anchor_value_witness:
  "map_sum id (\<lambda>i. (r_txid i, r_block_height i, r_anchored_utc i))
     (parse_woleet_receipt example_lib (JObj anchored_receipt)) =
   Inr (Some ''bb'', JInt 7, Some ''2020-02-02T00:00:00Z'')"
proof -
  let ?a = "[(''type'', JStr ''btc''), (''txId'', JStr ''BB''), (''blockHeight'', JInt 7),
             (''time'', JStr ''garbage'')]"
  let ?pre = "[JObj [(''type'', JStr ''btc''), (''txId'', JStr ''AA''),
                     (''time'', JStr ''2024-01-01T00:00:00Z'')]]"
  let ?post = "[JObj [(''type'', JStr ''eth''), (''txId'', JStr ''CC''),
                      (''time'', JStr ''2021-03-03T00:00:00Z'')]]"
  obtain info where p: "parse_woleet_receipt example_lib (JObj anchored_receipt) = Inr info"
  proof -
    have "case parse_woleet_receipt example_lib (JObj anchored_receipt) of
            Inr i \<Rightarrow> True | Inl e \<Rightarrow> False"
      by code_simp
    then show thesis using that by (auto split: sum.splits)
  qed
  have e: "anchor_entries (py_or (py_or (dict_get anchored_receipt ''anchors'')
             (dict_get anchored_receipt ''anchor'')) (JArr [])) = Inr (?pre @ JObj ?a # ?post)"
    by code_simp
  have q: "qualifies ?a" by code_simp
  have v: "truthy (anchor_txid ?a)" "truthy (anchor_height ?a)" "truthy (anchor_time ?a)"
    "anchor_txid ?a = JStr ''BB''" "anchor_height ?a = JInt 7" "lower ''BB'' = ''bb''"
    by code_simp+
  have l: "\<forall>a'. JObj a' \<in> set ?post \<and> qualifies a' \<longrightarrow> \<not> truthy (anchor_txid a')"
    "\<forall>a'. JObj a' \<in> set ?post \<and> qualifies a' \<longrightarrow> \<not> truthy (anchor_height a')"
    "\<forall>a'. JObj a' \<in> set ?post \<and> qualifies a' \<longrightarrow> \<not> truthy (anchor_time a')"
  proof -
    have "\<not> qualifies [(''type'', JStr ''eth''), (''txId'', JStr ''CC''),
                         (''time'', JStr ''2021-03-03T00:00:00Z'')]"
      by code_simp
    then show "\<forall>a'. JObj a' \<in> set ?post \<and> qualifies a' \<longrightarrow> \<not> truthy (anchor_txid a')"
      "\<forall>a'. JObj a' \<in> set ?post \<and> qualifies a' \<longrightarrow> \<not> truthy (anchor_height a')"
      "\<forall>a'. JObj a' \<in> set ?post \<and> qualifies a' \<longrightarrow> \<not> truthy (anchor_time a')"
      by auto
  qed
  have t: "norm_iso example_lib (anchor_time ?a) = None"
    "norm_iso example_lib (dict_get anchored_receipt ''blockTime'') = None"
    "norm_iso example_lib (dict_get anchored_receipt ''anchoredOn'') = None"
    "norm_iso example_lib (dict_get anchored_receipt ''created'') = Some ''2020-02-02T00:00:00Z''"
    by code_simp+
  from resolved_from_last_anchor_value [OF p e q] v l t
  have "r_txid info = Some ''bb''" "r_block_height info = JInt 7"
    "r_anchored_utc info = Some ''2020-02-02T00:00:00Z''"
    by auto
  with p show ?thesis by simp
qed


text \<open>
  Claim C7 at a receipt whose only time is \<open>created\<close>, noon at two hours east of UTC.
  The parser gives the aware value with its offset of 7200 seconds; the resolved time is
  the same wall-clock noon marked Z, which is two hours after the instant the receipt
  names (10:00:00Z).
\<close>

theorem offset_time_relabelled_utc:
  "reference_fromisoformat ''2024-01-01T12:00:00+02:00'' =
     Some \<lparr> dt_year = 2024, dt_month = 1, dt_day = 1, dt_hour = 12, dt_minute = 0,
            dt_second = 0, dt_microsecond = 0, dt_utcoffset = Some 7200 \<rparr>
   \<and> map_sum id r_anchored_utc
       (parse_woleet_receipt example_lib
          (JObj [(''created'', JStr ''2024-01-01T12:00:00+02:00'')]))
     = Inr (Some ''2024-01-01T12:00:00Z'')"
  by code_simp

section \<open>Properties of the matcher and of the assembly\<close>

lemma classify_keeps:
  "c_folder_label (classify f acc) = c_folder_label acc \<and>
   c_base_slug (classify f acc) = c_base_slug acc"
  by (simp add: classify_def Let_def)

lemma fold_classify_keeps:
  "c_folder_label (fold classify fs acc) = c_folder_label acc \<and>
   c_base_slug (fold classify fs acc) = c_base_slug acc"
  by (induction fs arbitrary: acc) (simp_all add: classify_keeps)

lemma collect_folder_label: "c_folder_label (collect_folder name es) = name"
  by (simp add: collect_folder_def fold_classify_keeps)

lemma collect_folder_base_slug: "c_base_slug (collect_folder name es) = base_slug_of name"
  by (simp add: collect_folder_def fold_classify_keeps)

lemma build_pdf_by_base_get:
  "build_pdf_by_base pdfs m b =
     (let xs = filter (\<lambda>p. lower (base_of (stem_of (fst p))) = b) pdfs
      in if xs = [] then m b else Some ((case m b of None \<Rightarrow> [] | Some ps \<Rightarrow> ps) @ xs))"
proof (induction pdfs arbitrary: m)
  case Nil
  then show ?case by simp
next
  case (Cons p pdfs)
  show ?case
    by (simp add: Cons.IH Let_def split: option.splits)
qed

lemma candidates_filter:
  "(case build_pdf_by_base pdfs Map.empty b of None \<Rightarrow> [] | Some ps \<Rightarrow> ps) =
     filter (\<lambda>p. lower (base_of (stem_of (fst p))) = b) pdfs"
  by (simp add: build_pdf_by_base_get Let_def)

lemma HEX64_match_nonempty: "HEX64_match t \<Longrightarrow> t \<noteq> []"
  by (auto simp: HEX64_match_def)

text \<open>
  Claim C3, as the code has it. In a group with exactly one document and one receipt the
  receipt is paired with the document when their base names agree, whatever hash it
  declares; when the base names differ it is paired only through a trusted declared hash
  that is the document's computed hash, and is unmatched otherwise.
\<close>

theorem single_pair_match:
  assumes "c_pdf_canons c = [pdf]" and "c_jsons c = [jpath]"
  shows "match_pdf L (fst (build_pdf_index L (c_pdf_canons c) (Map.empty, [])))
           (build_pdf_by_base (c_pdf_canons c) Map.empty) (fst jpath) target =
         (if lower (base_of (stem_of (fst jpath))) = lower (base_of (stem_of (fst pdf)))
          then Inr (Some pdf)
          else if trusted target \<and> sha256_file L pdf = Inr (the target) then Inr (Some pdf)
          else Inr None)"
proof -
  have cand: "(case build_pdf_by_base [pdf] Map.empty (lower (base_of (stem_of (fst jpath)))) of
                 None \<Rightarrow> [] | Some ps \<Rightarrow> ps) =
              (if lower (base_of (stem_of (fst pdf))) = lower (base_of (stem_of (fst jpath)))
               then [pdf] else [])"
    by (simp add: candidates_filter)
  show ?thesis
    unfolding assms(1) match_pdf_def Let_def cand
    by (cases "sha256_file L pdf") (auto simp: eq_commute [of "lower (base_of (stem_of (fst pdf)))"])
qed

lemma group_report_collected:
  "c_pdf_canons (collect_folder ''Report'' (entries_of (snd (group_report ''woleet.json'')))) =
     [(''Report.pdf'', IFile 5 ''hello'')]
   \<and> c_jsons (collect_folder ''Report'' (entries_of (snd (group_report ''woleet.json'')))) =
     [(''woleet.json'', IFile 6 ''{}'')]"
  by code_simp

theorem single_pair_match_witness:
  "match_pdf example_lib
     (fst (build_pdf_index example_lib
        (c_pdf_canons (collect_folder ''Report'' (entries_of (snd (group_report ''woleet.json'')))))
        (Map.empty, [])))
     (build_pdf_by_base
        (c_pdf_canons (collect_folder ''Report'' (entries_of (snd (group_report ''woleet.json'')))))
        Map.empty)
     ''woleet.json'' (Some (example_digest ''hello''))
   = Inr (Some (''Report.pdf'', IFile 5 ''hello''))"
proof -
  have 1: "lower (base_of (stem_of ''woleet.json'')) \<noteq> lower (base_of (stem_of ''Report.pdf''))"
    by code_simp
  have 2: "trusted (Some (example_digest ''hello''))"
    by code_simp
  have 3: "sha256_file example_lib (''Report.pdf'', IFile 5 ''hello'') = Inr (example_digest ''hello'')"
    by (simp add: sha256_file_def example_lib_def)
  show ?thesis
    using single_pair_match [of "collect_folder ''Report'' (entries_of (snd (group_report ''woleet.json'')))"
        "(''Report.pdf'', IFile 5 ''hello'')" "(''woleet.json'', IFile 6 ''{}'')"
        example_lib "Some (example_digest ''hello'')"]
      group_report_collected 1 2 3
    by simp
qed

theorem single_pair_unmatched:
  "c_pdf_canons (collect_folder ''Report'' (entries_of (snd (group_report ''woleet.json'')))) =
     [(''Report.pdf'', IFile 5 ''hello'')]
   \<and> c_jsons (collect_folder ''Report'' (entries_of (snd (group_report ''woleet.json'')))) =
     [(''woleet.json'', IFile 6 ''{}'')]
   \<and> fst (main example_lib plain_args (Some (IDir 0 [group_report ''woleet.json'']))
          (start Map.empty)) = None
   \<and> rows (snd (main example_lib plain_args (Some (IDir 0 [group_report ''woleet.json'']))
          (start Map.empty))) = []
   \<and> out (snd (main example_lib plain_args (Some (IDir 0 [group_report ''woleet.json'']))
          (start Map.empty))) =
     [Info_paths, Warn_unmatched ''woleet.json'' ''woleet'' ''None'', Warn_none_indexed]"
  by code_simp

lemma index_of_two:
  assumes "snd A = IFile ma a" and "snd B = IFile mb b"
  shows "fst (build_pdf_index L [A, B] (Map.empty, [])) =
           [sha256_hex L a \<mapsto> A, sha256_hex L b \<mapsto> B]"
  using assms by (simp add: sha256_file_def)

lemma find_by_hash_two:
  assumes "snd A = IFile ma a" and "snd B = IFile mb b"
    and "lower (sha256_hex L a) \<noteq> t" and "lower (sha256_hex L b) = t"
  shows "find_by_hash L t [A, B] = Inr (Some B)" and "find_by_hash L t [B, A] = Inr (Some B)"
  using assms by (simp_all add: sha256_file_def)

text \<open>
  Claim C4, as the code has it. With two documents \<open>A\<close> and \<open>B\<close> of different hashes and
  a receipt that declares the hash of \<open>B\<close>, the name decides first: a receipt whose base
  name is that of \<open>A\<close> alone is paired with \<open>A\<close>. In every other case (the base name is
  that of neither document, of \<open>B\<close> alone, or of both) the receipt is paired with \<open>B\<close>.
\<close>

theorem declared_hash_match:
  assumes docs: "c_pdf_canons c = [A, B] \<or> c_pdf_canons c = [B, A]"
    and A: "snd A = IFile ma a" and B: "snd B = IFile mb b"
    and HA: "lower (sha256_hex L a) = sha256_hex L a"
    and HB: "lower (sha256_hex L b) = sha256_hex L b"
    and diff: "sha256_hex L a \<noteq> sha256_hex L b"
    and hex: "HEX64_match (sha256_hex L b)"
  shows "match_pdf L (fst (build_pdf_index L (c_pdf_canons c) (Map.empty, [])))
           (build_pdf_by_base (c_pdf_canons c) Map.empty) jname (Some (sha256_hex L b)) =
         Inr (Some (if lower (base_of (stem_of jname)) = lower (base_of (stem_of (fst A)))
                       \<and> lower (base_of (stem_of jname)) \<noteq> lower (base_of (stem_of (fst B)))
                    then A else B))"
proof -
  let ?t = "sha256_hex L b"
  let ?bj = "lower (base_of (stem_of jname))"
  have tr: "trusted (Some ?t)"
    using hex by (simp add: trusted_def HEX64_match_nonempty)
  have na: "lower (sha256_hex L a) \<noteq> ?t" using HA diff by simp
  have AB: "A \<noteq> B" using A B diff by auto
  from docs show ?thesis
  proof
    assume c: "c_pdf_canons c = [A, B]"
    have idx: "fst (build_pdf_index L [A, B] (Map.empty, [])) ?t = Some B"
      by (subst index_of_two [OF A B]) simp
    have cand: "(case build_pdf_by_base [A, B] Map.empty ?bj of None \<Rightarrow> [] | Some ps \<Rightarrow> ps) =
                (if ?bj = lower (base_of (stem_of (fst A))) then [A] else []) @
                (if ?bj = lower (base_of (stem_of (fst B))) then [B] else [])"
      by (auto simp: candidates_filter)
    note fh = find_by_hash_two(1) [OF A B na HB]
    show ?thesis
      unfolding c match_pdf_def Let_def cand
      by (cases "?bj = lower (base_of (stem_of (fst A)))";
          cases "?bj = lower (base_of (stem_of (fst B)))")
         (simp_all add: tr idx fh del: build_pdf_index.simps find_by_hash.simps)
  next
    assume c: "c_pdf_canons c = [B, A]"
    have idx: "fst (build_pdf_index L [B, A] (Map.empty, [])) ?t = Some B"
      using diff by (subst index_of_two [OF B A]) simp
    have cand: "(case build_pdf_by_base [B, A] Map.empty ?bj of None \<Rightarrow> [] | Some ps \<Rightarrow> ps) =
                (if ?bj = lower (base_of (stem_of (fst B))) then [B] else []) @
                (if ?bj = lower (base_of (stem_of (fst A))) then [A] else [])"
      by (auto simp: candidates_filter)
    note fh = find_by_hash_two(2) [OF A B na HB]
    show ?thesis
      unfolding c match_pdf_def Let_def cand
      by (cases "?bj = lower (base_of (stem_of (fst A)))";
          cases "?bj = lower (base_of (stem_of (fst B)))")
         (simp_all add: tr idx fh del: build_pdf_index.simps find_by_hash.simps)
  qed
qed

lemma group_report_v2_collected:
  "c_pdf_canons (collect_folder ''Report_v2'' (entries_of (snd (group_report_v2 ''A.json'')))) =
     [(''A.pdf'', IFile 1 ''a''), (''B.pdf'', IFile 2 ''bb'')]"
  by code_simp

theorem declared_hash_match_witness:
  "match_pdf example_lib
     (fst (build_pdf_index example_lib
        (c_pdf_canons (collect_folder ''Report_v2'' (entries_of (snd (group_report_v2 ''A.json'')))))
        (Map.empty, [])))
     (build_pdf_by_base
        (c_pdf_canons (collect_folder ''Report_v2'' (entries_of (snd (group_report_v2 ''A.json'')))))
        Map.empty)
     ''C.json'' (Some (sha256_hex example_lib ''bb''))
   = Inr (Some (''B.pdf'', IFile 2 ''bb''))
   \<and> match_pdf example_lib
     (fst (build_pdf_index example_lib
        (c_pdf_canons (collect_folder ''Report_v2'' (entries_of (snd (group_report_v2 ''A.json'')))))
        (Map.empty, [])))
     (build_pdf_by_base
        (c_pdf_canons (collect_folder ''Report_v2'' (entries_of (snd (group_report_v2 ''A.json'')))))
        Map.empty)
     ''A.json'' (Some (sha256_hex example_lib ''bb''))
   = Inr (Some (''A.pdf'', IFile 1 ''a''))"
proof -
  let ?c = "collect_folder ''Report_v2'' (entries_of (snd (group_report_v2 ''A.json'')))"
  have h: "lower (sha256_hex example_lib ''a'') = sha256_hex example_lib ''a''"
    "lower (sha256_hex example_lib ''bb'') = sha256_hex example_lib ''bb''"
    "sha256_hex example_lib ''a'' \<noteq> sha256_hex example_lib ''bb''"
    "HEX64_match (sha256_hex example_lib ''bb'')"
    by code_simp+
  have n: "lower (base_of (stem_of ''C.json'')) \<noteq> lower (base_of (stem_of ''A.pdf''))"
    "lower (base_of (stem_of ''A.json'')) = lower (base_of (stem_of ''A.pdf''))"
    "lower (base_of (stem_of ''A.json'')) \<noteq> lower (base_of (stem_of ''B.pdf''))"
    by code_simp+
  have c: "c_pdf_canons ?c = [(''A.pdf'', IFile 1 ''a''), (''B.pdf'', IFile 2 ''bb'')] \<or>
           c_pdf_canons ?c = [(''B.pdf'', IFile 2 ''bb''), (''A.pdf'', IFile 1 ''a'')]"
    using group_report_v2_collected by simp
  have s: "snd (''A.pdf'', IFile 1 ''a'') = IFile 1 ''a''"
    "snd (''B.pdf'', IFile 2 ''bb'') = IFile 2 ''bb''"
    by simp_all
  show ?thesis
    using declared_hash_match [OF c s h, of "''C.json''"]
      declared_hash_match [OF c s h, of "''A.json''"] n
    by simp
qed

theorem name_match_beats_declared_hash:
  "map (\<lambda>r. (row_filename r, row_sha256 r))
     (rows (snd (main example_lib plain_args (Some (IDir 0 [group_report_v2 ''A.json'']))
        (start Map.empty)))) =
     [(''stamped/Report_v2/A.pdf'', example_digest ''a'')]
   \<and> load_receipt example_lib (''A.json'', IFile 3 (receipt_declaring (example_digest ''bb''))) =
       Some (JObj [(''targetHash'', JStr (example_digest ''bb''))])
   \<and> example_digest ''a'' \<noteq> example_digest ''bb''"
  by code_simp

subsection \<open>The assembled record\<close>

lemma assemble_file:
  assumes "snd pdf = IFile m bytes"
  shows "\<exists>a. assemble L c jname info pdf = Inr a
           \<and> as_pdf a = pdf
           \<and> d_sha256 (pj_document (as_proof_json a)) = sha256_hex L bytes
           \<and> row_sha256 (as_row a) = sha256_hex L bytes
           \<and> ix_sha256 (as_index_line a) = sha256_hex L bytes
           \<and> as_warnings a =
               (if trusted (r_sha256 info) \<and> sha256_hex L bytes \<noteq> the (r_sha256 info)
                then [Warn_sha_mismatch (fst pdf) (take 12 (sha256_hex L bytes))
                        (take 12 (the (r_sha256 info)))]
                else [])"
  using assms by (simp add: assemble_def sha256_file_def Let_def)

lemma assemble_Inr:
  assumes "assemble L c jname info pdf = Inr a"
  shows "\<exists>m bytes. snd pdf = IFile m bytes"
  using assms by (cases "snd pdf") (simp_all add: assemble_def sha256_file_def Let_def)

text \<open>
  Claim C1. Whenever the loop body assembles a record for a receipt, the receipt was
  paired with a document whose bytes hash to the \<open>sha256\<close> of the document block, of the
  mapping row and of the index line. A trusted declared hash that differs gives exactly
  one warning and changes nothing else; it never is the recorded hash. Conversely a
  receipt that is read, normalised and paired with a readable document is always
  assembled, whatever it declares.
\<close>

theorem document_hash_is_computed:
  "(decide_receipt L c pdf_index pdf_by_base jpath = Inr (Assembled a) \<longrightarrow>
      (\<exists>jdata info m bytes.
         load_receipt L jpath = Some jdata
         \<and> parse_woleet_receipt L jdata = Inr info
         \<and> match_pdf L pdf_index pdf_by_base (fst jpath) (r_sha256 info) = Inr (Some (as_pdf a))
         \<and> snd (as_pdf a) = IFile m bytes
         \<and> d_sha256 (pj_document (as_proof_json a)) = sha256_hex L bytes
         \<and> row_sha256 (as_row a) = sha256_hex L bytes
         \<and> ix_sha256 (as_index_line a) = sha256_hex L bytes
         \<and> as_warnings a =
             (if trusted (r_sha256 info) \<and> sha256_hex L bytes \<noteq> the (r_sha256 info)
              then [Warn_sha_mismatch (fst (as_pdf a)) (take 12 (sha256_hex L bytes))
                      (take 12 (the (r_sha256 info)))]
              else [])))
   \<and> (\<forall>jdata info pdf m bytes.
         load_receipt L jpath = Some jdata
         \<and> parse_woleet_receipt L jdata = Inr info
         \<and> match_pdf L pdf_index pdf_by_base (fst jpath) (r_sha256 info) = Inr (Some pdf)
         \<and> snd pdf = IFile m bytes
         \<longrightarrow> (\<exists>a'. decide_receipt L c pdf_index pdf_by_base jpath = Inr (Assembled a')
                  \<and> d_sha256 (pj_document (as_proof_json a')) = sha256_hex L bytes))"
proof (intro conjI impI allI)
  assume d: "decide_receipt L c pdf_index pdf_by_base jpath = Inr (Assembled a)"
  then obtain jdata info pdf where
    l: "load_receipt L jpath = Some jdata"
    and p: "parse_woleet_receipt L jdata = Inr info"
    and m: "match_pdf L pdf_index pdf_by_base (fst jpath) (r_sha256 info) = Inr (Some pdf)"
    and a: "assemble L c (fst jpath) info pdf = Inr a"
    by (auto simp: decide_receipt_def split: option.splits sum.splits)
  from a obtain mt bytes where f: "snd pdf = IFile mt bytes"
    using assemble_Inr by blast
  from assemble_file [OF f, of L c "fst jpath" info] a l p m f
  show "\<exists>jdata info m bytes.
         load_receipt L jpath = Some jdata
         \<and> parse_woleet_receipt L jdata = Inr info
         \<and> match_pdf L pdf_index pdf_by_base (fst jpath) (r_sha256 info) = Inr (Some (as_pdf a))
         \<and> snd (as_pdf a) = IFile m bytes
         \<and> d_sha256 (pj_document (as_proof_json a)) = sha256_hex L bytes
         \<and> row_sha256 (as_row a) = sha256_hex L bytes
         \<and> ix_sha256 (as_index_line a) = sha256_hex L bytes
         \<and> as_warnings a =
             (if trusted (r_sha256 info) \<and> sha256_hex L bytes \<noteq> the (r_sha256 info)
              then [Warn_sha_mismatch (fst (as_pdf a)) (take 12 (sha256_hex L bytes))
                      (take 12 (the (r_sha256 info)))]
              else [])"
    by auto
next
  fix jdata info pdf m bytes
  assume h: "load_receipt L jpath = Some jdata
         \<and> parse_woleet_receipt L jdata = Inr info
         \<and> match_pdf L pdf_index pdf_by_base (fst jpath) (r_sha256 info) = Inr (Some pdf)
         \<and> snd pdf = IFile m bytes"
  then have f: "snd pdf = IFile m bytes" by simp
  from assemble_file [OF f, of L c "fst jpath" info] h
  show "\<exists>a'. decide_receipt L c pdf_index pdf_by_base jpath = Inr (Assembled a')
              \<and> d_sha256 (pj_document (as_proof_json a')) = sha256_hex L bytes"
    by (auto simp: decide_receipt_def)
qed

theorem document_hash_is_computed_witness:
  "\<exists>a. mismatch_decision = Inr (Assembled a)
       \<and> d_sha256 (pj_document (as_proof_json a)) = sha256_hex example_lib ''a''
       \<and> as_warnings a =
           [Warn_sha_mismatch ''A.pdf'' (take 12 (example_digest ''a''))
              (take 12 (example_digest ''bb''))]"
proof -
  let ?c = "collect_folder ''Report_v2'' (entries_of (snd (group_report_v2 ''A.json'')))"
  let ?idx = "fst (build_pdf_index example_lib (c_pdf_canons ?c) (Map.empty, []))"
  let ?byb = "build_pdf_by_base (c_pdf_canons ?c) Map.empty"
  let ?j = "(''A.json'', IFile 3 (receipt_declaring (example_digest ''bb'')))"
  obtain a where a: "mismatch_decision = Inr (Assembled a)"
    and pdf: "as_pdf a = (''A.pdf'', IFile 1 ''a'')"
  proof -
    have "case mismatch_decision of
            Inr (Assembled a) \<Rightarrow> as_pdf a = (''A.pdf'', IFile 1 ''a'')
          | _ \<Rightarrow> False"
      by code_simp
    then show thesis using that by (auto split: sum.splits decision.splits)
  qed
  have tr: "trusted (Some (example_digest ''bb''))"
    "sha256_hex example_lib ''a'' \<noteq> example_digest ''bb''"
    "sha256_hex example_lib ''a'' = example_digest ''a''"
    by code_simp+
  have l: "load_receipt example_lib ?j = Some (JObj [(''targetHash'', JStr (example_digest ''bb''))])"
    by code_simp
  have p: "map_sum id r_sha256
             (parse_woleet_receipt example_lib (JObj [(''targetHash'', JStr (example_digest ''bb''))]))
           = Inr (Some (example_digest ''bb''))"
    by code_simp
  from a have d: "decide_receipt example_lib ?c ?idx ?byb ?j = Inr (Assembled a)"
    by (simp add: mismatch_decision_def Let_def)
  from document_hash_is_computed [of example_lib ?c ?idx ?byb ?j a] d
  obtain jdata info m bytes where
    "load_receipt example_lib ?j = Some jdata"
    "parse_woleet_receipt example_lib jdata = Inr info"
    "snd (as_pdf a) = IFile m bytes"
    "d_sha256 (pj_document (as_proof_json a)) = sha256_hex example_lib bytes"
    "as_warnings a =
       (if trusted (r_sha256 info) \<and> sha256_hex example_lib bytes \<noteq> the (r_sha256 info)
        then [Warn_sha_mismatch (fst (as_pdf a)) (take 12 (sha256_hex example_lib bytes))
                (take 12 (the (r_sha256 info)))]
        else [])"
    by blast
  with l p pdf tr a show ?thesis
    by auto
qed

subsection \<open>The second example of the specification\<close>

lemma report_v2_constants:
  "base_slug_of ''Report_v2'' = ''report''"
  "parse_version_from_name ''A.pdf'' = None"
  "parse_version_from_name ''B.pdf'' = None"
  "parse_version_from_name ''Report_v2'' = Some ''v2''"
  "version_field ''report_v2'' = ''v2''"
  by code_simp+

text \<open>
  Claim C6, as the code has it. In the group labelled \<open>Report_v2\<close> every record
  assembled for \<open>A.pdf\<close> or for \<open>B.pdf\<close> has the composite slug \<open>report_v2\<close> and the
  version \<open>v2\<close>: the token of the label is embedded as it stands, lower-cased, and a token
  of one segment gets no second segment.
\<close>

theorem report_v2_slug:
  assumes "assemble L (collect_folder ''Report_v2'' es) jname info pdf = Inr a"
    and "fst pdf = ''A.pdf'' \<or> fst pdf = ''B.pdf''"
  shows "as_slug_version a = ''report_v2''
       \<and> row_slug (as_row a) = ''report_v2''
       \<and> ix_slug (as_index_line a) = ''report_v2''
       \<and> d_slug (pj_document (as_proof_json a)) = ''report''
       \<and> d_version (pj_document (as_proof_json a)) = ''v2''"
proof -
  have slug: "build_slug_version ''report'' (fst pdf) ''Report_v2'' (r_anchored_utc info) = ''report_v2''"
    using assms(2)
    by (auto simp: build_slug_version_def resolve_version_cases report_v2_constants)
  from assms(1) show ?thesis
    by (auto simp: assemble_def Let_def collect_folder_label collect_folder_base_slug
        report_v2_constants slug split: sum.splits)
qed

theorem report_v2_slug_witness:
  "\<exists>a. assemble example_lib
          (collect_folder ''Report_v2'' (entries_of (snd (group_report_v2 ''B.json''))))
          ''B.json'' \<lparr> r_proof_id = JNull, r_sha256 = Some (example_digest ''bb''), r_txid = None,
                       r_block_height = JNull, r_anchored_utc = None, r_link = JNull \<rparr>
          (''B.pdf'', IFile 2 ''bb'') = Inr a
       \<and> as_slug_version a = ''report_v2''
       \<and> d_version (pj_document (as_proof_json a)) = ''v2''"
proof -
  let ?info = "\<lparr> r_proof_id = JNull, r_sha256 = Some (example_digest ''bb''), r_txid = None,
                  r_block_height = JNull, r_anchored_utc = None, r_link = JNull \<rparr>"
  let ?c = "collect_folder ''Report_v2'' (entries_of (snd (group_report_v2 ''B.json'')))"
  obtain a where a: "assemble example_lib ?c ''B.json'' ?info (''B.pdf'', IFile 2 ''bb'') = Inr a"
    using assemble_file [of "(''B.pdf'', IFile 2 ''bb'')" 2 "''bb''" example_lib ?c "''B.json''" ?info]
    by auto
  from report_v2_slug [OF a] a show ?thesis
    by auto
qed

theorem report_v2_slug_has_one_segment:
  "map (\<lambda>r. (row_filename r, row_slug r))
     (rows (snd (main example_lib plain_args (Some (IDir 0 [group_report_v2 ''B.json'']))
        (start Map.empty)))) =
     [(''stamped/Report_v2/B.pdf'', ''report_v2'')]
   \<and> ''report_v2'' \<noteq> ''report_v2-0''"
  by code_simp

section \<open>Properties of the run\<close>

subsection \<open>Annexes are created, never replaced\<close>

text \<open>
  Claim C10. A transfer of an annex outside a dry run whose destination exists returns
  at once: the whole state, and with it what stands at the destination, is unchanged,
  whether the annexes are copied or linked and whatever the source holds.
\<close>

theorem existing_annex_untouched:
  assumes "path_exists stamped (files st) dst"
  shows "copy_or_link stamped src dst symlink False verbose st = (None, st)"
  using assms by (simp add: copy_or_link_def skip_def)

lemma earlier_receipt_exists:
  "path_exists (Some (IDir 0 [group_report ''Report.json''])) earlier_output
     [''proofs'', ''by-doc'', ''report_v1-0'', ''woleet_receipt.json'']"
  by code_simp

theorem existing_annex_untouched_witness:
  "files (snd (copy_or_link (Some (IDir 0 [group_report ''Report.json'']))
                 ([''stamped'', ''Report'', ''Report.json''], IFile 6 ''{}'')
                 [''proofs'', ''by-doc'', ''report_v1-0'', ''woleet_receipt.json'']
                 False False False (start earlier_output)))
     [''proofs'', ''by-doc'', ''report_v1-0'', ''woleet_receipt.json''] = Some (OFile (Bytes ''old''))"
proof -
  have "files (start earlier_output)
          [''proofs'', ''by-doc'', ''report_v1-0'', ''woleet_receipt.json''] = Some (OFile (Bytes ''old''))"
    by code_simp
  moreover have "path_exists (Some (IDir 0 [group_report ''Report.json'']))
      (files (start earlier_output)) [''proofs'', ''by-doc'', ''report_v1-0'', ''woleet_receipt.json'']"
    using earlier_receipt_exists by (simp add: start_def)
  ultimately show ?thesis
    using existing_annex_untouched [of "Some (IDir 0 [group_report ''Report.json''])"
        "start earlier_output" "[''proofs'', ''by-doc'', ''report_v1-0'', ''woleet_receipt.json'']"
        "([''stamped'', ''Report'', ''Report.json''], IFile 6 ''{}'')" False False]
    by simp
qed

text \<open>
  The same in a whole run over an output area left by an earlier run: the proof record
  is written anew, the receipt copied before stays as it was.
\<close>

lemma rerun_keeps_copied_receipt:
  "map (files (snd (main example_lib plain_args (Some (IDir 0 [group_report ''Report.json'']))
                     (start earlier_output))))
     [[''proofs'', ''by-doc'', ''report_v1-0'', ''woleet_receipt.json''],
      [''proofs'', ''by-doc'', ''report_v1-0'', ''checksums.txt'']] =
   [Some (OFile (Bytes ''old'')),
    Some (OFile (Text (checksums_line (example_digest ''hello'') ''stamped/Report/Report.pdf'')))]"
  by code_simp

subsection \<open>Where a run can exit\<close>

lemma no_exit_skip: "no_exit skip"
  by (simp add: no_exit_def skip_def)

lemma no_exit_emit: "no_exit (emit ev)"
  by (simp add: no_exit_def emit_def)

lemma no_exit_log: "no_exit (log ev v)"
  by (simp add: log_def no_exit_skip no_exit_emit)

lemma no_exit_on_files: "no_exit (on_files f)"
  by (auto simp: no_exit_def on_files_def split: sum.splits)

lemma no_exit_raise_Error: "no_exit (raise (Error e))"
  by (simp add: no_exit_def raise_def)

lemma no_exit_append_lines: "no_exit (append_lines r i)"
  by (simp add: no_exit_def append_lines_def)

lemma no_exit_seq:
  assumes "no_exit f" and "no_exit g"
  shows "no_exit (seq f g)"
proof -
  have "fst (seq f g st) \<noteq> Some (SystemExit n)" for st n
  proof (cases "f st")
    case (Pair r st')
    from assms(1) have "fst (f st) \<noteq> Some (SystemExit n)"
      by (simp add: no_exit_def)
    with Pair have r: "r \<noteq> Some (SystemExit n)" by simp
    from assms(2) have "fst (g st') \<noteq> Some (SystemExit n)"
      by (simp add: no_exit_def)
    with r Pair show ?thesis
      by (cases r) (simp_all add: seq_def)
  qed
  then show ?thesis by (simp add: no_exit_def)
qed

lemma no_exit_for_each:
  assumes "\<And>x. no_exit (f x)"
  shows "no_exit (for_each f xs)"
proof -
  have "fst (for_each f xs st) \<noteq> Some (SystemExit n)" for st n
  proof (induction xs arbitrary: st)
    case Nil
    then show ?case by simp
  next
    case (Cons x xs)
    from assms [of x] have "fst (f x st) \<noteq> Some (SystemExit n)"
      by (simp add: no_exit_def)
    with Cons.IH show ?case
      by (cases "f x st") (auto split: option.splits)
  qed
  then show ?thesis by (simp add: no_exit_def)
qed

lemma no_exit_ensure_dir: "no_exit (ensure_dir stamped p dry)"
  by (simp add: ensure_dir_def no_exit_skip no_exit_on_files)

lemma no_exit_copy_or_link: "no_exit (copy_or_link stamped src dst symlink dry verbose)"
proof (cases dry)
  case True
  then show ?thesis by (simp add: copy_or_link_def no_exit_log)
next
  case False
  then show ?thesis
    using no_exit_skip no_exit_on_files
    by (simp add: copy_or_link_def no_exit_def)
qed

lemma no_exit_write_proof_set:
  "no_exit (write_proof_set stamped outdir pj rel rj att shots symlink dry verbose)"
  unfolding write_proof_set_def
  by (intro no_exit_seq no_exit_ensure_dir no_exit_copy_or_link)
     (simp_all add: no_exit_log no_exit_on_files no_exit_skip no_exit_copy_or_link
        split: option.splits list.splits)

lemma no_exit_process_receipt: "no_exit (process_receipt L ar stamped c idx byb jpath)"
  unfolding process_receipt_def
  by (auto split: sum.splits decision.splits
      intro!: no_exit_seq no_exit_for_each no_exit_emit no_exit_raise_Error
        no_exit_write_proof_set no_exit_append_lines)

lemma no_exit_process_group: "no_exit (process_group L ar stamped d)"
  unfolding process_group_def Let_def
  by (auto intro!: no_exit_seq no_exit_for_each no_exit_emit no_exit_log
        no_exit_process_receipt)

lemma no_exit_finish: "no_exit (finish stamped ar)"
  using no_exit_seq [OF no_exit_seq [OF no_exit_on_files no_exit_on_files] no_exit_emit]
    no_exit_seq [OF no_exit_skip no_exit_emit] no_exit_emit
  by (simp add: no_exit_def finish_def)

lemma no_exit_main_Some: "no_exit (main L ar (Some root))"
  unfolding main_def
  by (cases root)
     (auto simp: Let_def intro!: no_exit_seq no_exit_emit no_exit_ensure_dir
        no_exit_raise_Error no_exit_for_each no_exit_process_group no_exit_finish no_exit_skip)

lemma main_None:
  "main L ar None st =
     (Some (SystemExit 1), st\<lparr>out := out st @ [Info_paths, Err_missing_stamped]\<rparr>)"
  by (simp add: main_def seq_def emit_def raise_def)

text \<open>
  Claim C8, as the code has it. The run ends by \<open>sys.exit(1)\<close> exactly when the
  directory \<open>stamped\<close> is missing, and then nothing has been written and no row
  collected. When the directory is there the run never calls \<open>sys.exit\<close>: a run that
  reaches its end has exit status 0, with or without rows, and the only other status is
  that of an exception nobody caught.
\<close>

theorem exit_only_when_stamped_missing:
  "fst (main L ar None st) = Some (SystemExit 1)
   \<and> exit_status (fst (main L ar None st)) = 1
   \<and> files (snd (main L ar None st)) = files st
   \<and> rows (snd (main L ar None st)) = rows st
   \<and> index_lines (snd (main L ar None st)) = index_lines st
   \<and> (\<forall>root n. fst (main L ar (Some root) st) \<noteq> Some (SystemExit n))
   \<and> (\<forall>root. exit_status (fst (main L ar (Some root) st)) =
               (if fst (main L ar (Some root) st) = None then 0 else 1))"
proof -
  have "fst (main L ar (Some root) st) \<noteq> Some (SystemExit n)" for root n
    using no_exit_main_Some [of L ar root] by (simp add: no_exit_def)
  then have "exit_status (fst (main L ar (Some root) st)) =
               (if fst (main L ar (Some root) st) = None then 0 else 1)" for root
    by (cases "fst (main L ar (Some root) st)")
       (auto simp: exit_status_def split: raised.splits)
  then show ?thesis
    using no_exit_main_Some [of L ar]
    by (simp add: main_None exit_status_def no_exit_def)
qed

theorem exit_only_when_stamped_missing_witness:
  "exit_status (fst (main example_lib plain_args None (start Map.empty))) = 1
   \<and> exit_status (fst (main example_lib plain_args (Some (IDir 0 [group_report ''woleet.json'']))
        (start Map.empty))) = 0"
proof -
  have "fst (main example_lib plain_args (Some (IDir 0 [group_report ''woleet.json'']))
          (start Map.empty)) = None"
    by code_simp
  then show ?thesis
    using exit_only_when_stamped_missing [of example_lib plain_args "start Map.empty"]
    by (simp add: exit_status_def)
qed

theorem no_rows_exit_status_zero:
  "exit_status (fst (main example_lib plain_args (Some (IDir 0 [])) (start Map.empty))) = 0
   \<and> rows (snd (main example_lib plain_args (Some (IDir 0 [])) (start Map.empty))) = []
   \<and> out (snd (main example_lib plain_args (Some (IDir 0 [])) (start Map.empty))) =
       [Info_paths, Warn_no_subdirs, Warn_none_indexed]"
  by code_simp

text \<open>
  A run that does not reach its end although the directory is there: a receipt that
  holds a JSON list makes \<open>parse_woleet_receipt\<close> raise, and nothing catches it.
\<close>

lemma list_receipt_aborts:
  "fst (main example_lib plain_args (Some (IDir 0 [group_with_list_receipt])) (start Map.empty))
     = Some (Error AttributeError)"
  by code_simp

subsection \<open>A dry run writes nothing\<close>













subsection \<open>A dry run decides as the normal run does\<close>






























text \<open>
  Writes that reach the input. With the proof record of the group \<open>A\<close> linked to the
  receipt of the group \<open>B\<close>, the normal run writes the record into that receipt; with the
  directory of the group \<open>A\<close> linked to the directory of \<open>B\<close>, it writes the record, the
  checksums and the copy of the receipt into the group \<open>B\<close>. The program comes to the
  group \<open>B\<close> afterwards and reads what it wrote there: in the first case a receipt that
  declares no hash and is named after no document, so that it reports the receipt as
  unmatched and keeps one row where the dry run keeps two. The definitions read the
  input as it stood and do not follow the program there; such runs are the ones the
  statement of the claim C9 leaves out, and a dry run is never among them.
\<close>

lemma write_through_link_reaches_input:
  "input_writes (snd (main example_lib plain_args (Some two_groups) (start linked_output))) =
     [[''stamped'', ''B'', ''w.json'']]
   \<and> input_writes (snd (main example_lib plain_args (Some two_groups) (start linked_dir_output))) =
     [[''stamped'', ''B'', ''proof.json''], [''stamped'', ''B'', ''checksums.txt''],
      [''stamped'', ''B'', ''woleet_receipt.json'']]
   \<and> input_writes (snd (main example_lib (plain_args\<lparr>a_dry_run := True\<rparr>) (Some two_groups)
        (start linked_output))) = []
   \<and> map row_slug (rows (snd (main example_lib (plain_args\<lparr>a_dry_run := True\<rparr>)
        (Some two_groups) (start linked_output)))) = [''a_v1-0'', ''b_v1-0'']"
  by code_simp

end
